theory Spec2Isabelle
  imports Complex_Main "HOL-Library.Product_Lexorder" "HOL-Library.Char_ord"
    "HOL-Library.List_Lexorder"
begin

section \<open>The Analysis model\<close>

text \<open>
  Documents are modelled as records, string enums of the schema as datatypes and
  optional paths as \<open>option\<close>. A \<open>Date\<close> is its number of milliseconds since the
  epoch; a counter is an \<open>int\<close>; a measured \<open>Number\<close> (a length, a score) is a
  \<open>real\<close>, of which the code only uses the product and the test against zero.
  An ObjectId is the string of its hexadecimal digits. The paths \<open>createdAt\<close> and
  \<open>updatedAt\<close>, kept by the library, and the parts of \<open>vastuAnalysis\<close> that have no
  validator and that no handler reads are left out.
\<close>

type_synonym oid = string
type_synonym msec = int

datatype status = Pending | Processing | Completed | Failed

datatype orientation =
  North | South | East | West | Northeast | Northwest | Southeast | Southwest

datatype room_direction = Dir orientation | Center

datatype room_type =
  Bedroom | LivingRoom | Kitchen | Bathroom | DiningRoom | Study | PujaRoom | Balcony
  | OtherRoom

datatype area_unit = Sqft | Sqm

record room_dimensions =
  length_dim :: "real option"
  width :: "real option"
  area :: "real option"

record dimensions = room_dimensions +
  unit_dim :: area_unit

record room =
  name :: string
  rtype :: "room_type option"
  position :: "(real \<times> real) option"
  rdimensions :: room_dimensions
  direction :: "room_direction option"

record floor_plan =
  dimensions :: dimensions
  orientation :: "orientation option"
  rooms :: "room list"

record file_ref =
  filename :: string
  originalName :: string
  url :: string
  size_bytes :: "int option"
  mimetype :: string

record vastu =
  overallScore :: real
  energyFlowScore :: "real option"
  summary :: "string option"

record analysis =
  aid :: oid
  user :: oid
  title :: string
  description :: "string option"
  files :: "file_ref list"
  floorPlan :: floor_plan
  vastuAnalysis :: vastu
  status :: status
  processingStartedAt :: "msec option"
  completedAt :: "msec option"
  processingTime :: "int option"
  isPublic :: bool
  tags :: "string list"
  views :: int
  likes :: int
  shares :: int

type_synonym db = "oid \<rightharpoonup> analysis"

datatype exn = ValidationError | DbError | DocumentNotFound | CastError | UploadFailed

subsection \<open>Schema validation\<close>

text \<open>
  The validators the schema declares: \<open>required\<close> (a string path must be non-empty),
  \<open>maxlength\<close>, \<open>min\<close> and \<open>max\<close>. The \<open>enum\<close> validators hold by typing.
\<close>

definition valid_file :: "file_ref \<Rightarrow> bool" where
  "valid_file f \<longleftrightarrow>
     filename f \<noteq> [] \<and> originalName f \<noteq> [] \<and> url f \<noteq> [] \<and> size_bytes f \<noteq> None
     \<and> mimetype f \<noteq> []"

definition valid_room :: "room \<Rightarrow> bool" where
  "valid_room r \<longleftrightarrow> name r \<noteq> [] \<and> rtype r \<noteq> None"

definition valid_vastu :: "vastu \<Rightarrow> bool" where
  "valid_vastu v \<longleftrightarrow>
     0 \<le> overallScore v \<and> overallScore v \<le> 100
     \<and> (case energyFlowScore v of None \<Rightarrow> True | Some s \<Rightarrow> 0 \<le> s \<and> s \<le> 100)"

definition valid :: "analysis \<Rightarrow> bool" where
  "valid a \<longleftrightarrow>
     user a \<noteq> []
     \<and> title a \<noteq> [] \<and> length (title a) \<le> 100
     \<and> (case description a of None \<Rightarrow> True | Some d \<Rightarrow> length d \<le> 500)
     \<and> list_all valid_file (files a)
     \<and> orientation (floorPlan a) \<noteq> None
     \<and> list_all valid_room (rooms (floorPlan a))
     \<and> valid_vastu (vastuAnalysis a)"

subsection \<open>The pre-save hook\<close>

text \<open>
  \<open>if (length && width) area = length * width\<close>: a Number is truthy when it is
  present and not zero.
\<close>

definition truthy :: "real option \<Rightarrow> bool" where
  "truthy x = (case x of None \<Rightarrow> False | Some v \<Rightarrow> v \<noteq> 0)"

definition calcArea :: "'a room_dimensions_scheme \<Rightarrow> 'a room_dimensions_scheme" where
  "calcArea d =
     (if truthy (length_dim d) \<and> truthy (width d)
      then d\<lparr>area := Some (the (length_dim d) * the (width d))\<rparr>
      else d)"

definition preSave :: "analysis \<Rightarrow> analysis" where
  "preSave a =
     a\<lparr>floorPlan := (floorPlan a)
        \<lparr>dimensions := calcArea (dimensions (floorPlan a)),
         rooms := map (\<lambda>r. r\<lparr>rdimensions := calcArea (rdimensions r)\<rparr>) (rooms (floorPlan a))\<rparr>\<rparr>"

subsection \<open>Saving\<close>

text \<open>
  \<open>save\<close> validates the document unless \<open>validateBeforeSave\<close> is false, runs the
  pre-save hook and writes the document back under its id. The write fails when the
  database refuses it (\<open>dbOk\<close> is false) or when no document has this id any more.
  The result is the error thrown, if any, the document in memory afterwards and the
  collection afterwards. \<open>insert_doc\<close> is the same for a new document
  (\<open>Analysis.create\<close>).

  The library sends to the database the paths that have changed since the document
  was loaded; here the whole document is written. The two differ only when another
  request has changed other paths of the same analysis between the load and the save.
  The statements below are about the paths that the saving handler has set itself
  (the status and its dates, the counters, the areas).
\<close>

definition save :: "bool \<Rightarrow> bool \<Rightarrow> analysis \<Rightarrow> db \<Rightarrow> exn option \<times> analysis \<times> db" where
  "save validateBeforeSave dbOk a D =
     (if validateBeforeSave \<and> \<not> valid a then (Some ValidationError, a, D)
      else let a' = preSave a in
        if \<not> dbOk then (Some DbError, a', D)
        else if D (aid a') = None then (Some DocumentNotFound, a', D)
        else (None, a', D(aid a' \<mapsto> a')))"

definition insert_doc :: "bool \<Rightarrow> analysis \<Rightarrow> db \<Rightarrow> exn option \<times> analysis \<times> db" where
  "insert_doc dbOk a D =
     (if \<not> valid a then (Some ValidationError, a, D)
      else let a' = preSave a in
        if \<not> dbOk \<or> D (aid a') \<noteq> None then (Some DbError, a', D)
        else (None, a', D(aid a' \<mapsto> a')))"

subsection \<open>Methods\<close>

text \<open>\<open>Math.round(ms / 1000)\<close>: the nearest integer, a half rounded up.\<close>

definition round_seconds :: "int \<Rightarrow> int" where
  "round_seconds ms = (ms + 500) div 1000"

definition set_status :: "status \<Rightarrow> msec \<Rightarrow> analysis \<Rightarrow> analysis" where
  "set_status st now a =
     (let a1 = a\<lparr>status := st\<rparr> in
      if st = Processing then a1\<lparr>processingStartedAt := Some now\<rparr>
      else if st = Completed then
        (let a2 = a1\<lparr>completedAt := Some now\<rparr> in
         case processingStartedAt a2 of
           None \<Rightarrow> a2
         | Some t0 \<Rightarrow> a2\<lparr>processingTime := Some (round_seconds (now - t0))\<rparr>)
      else a1)"

definition updateStatus ::
  "status \<Rightarrow> msec \<Rightarrow> bool \<Rightarrow> analysis \<Rightarrow> db \<Rightarrow> exn option \<times> analysis \<times> db" where
  "updateStatus st now dbOk a D = save True dbOk (set_status st now a) D"

definition processingDuration :: "analysis \<Rightarrow> int option" where
  "processingDuration a =
     (case (processingStartedAt a, completedAt a) of
        (Some t0, Some t1) \<Rightarrow> Some (round_seconds (t1 - t0))
      | _ \<Rightarrow> None)"

definition incrementViews :: "bool \<Rightarrow> analysis \<Rightarrow> db \<Rightarrow> exn option \<times> analysis \<times> db" where
  "incrementViews dbOk a D = save False dbOk (a\<lparr>views := views a + 1\<rparr>) D"

definition like :: "bool \<Rightarrow> analysis \<Rightarrow> db \<Rightarrow> exn option \<times> analysis \<times> db" where
  "like dbOk a D = save False dbOk (a\<lparr>likes := likes a + 1\<rparr>) D"

definition share :: "bool \<Rightarrow> analysis \<Rightarrow> db \<Rightarrow> exn option \<times> analysis \<times> db" where
  "share dbOk a D = save False dbOk (a\<lparr>shares := shares a + 1\<rparr>) D"

section \<open>Middleware (authentication and validation)\<close>

text \<open>
  What the token of a request resolves to is an input of the model: no token, a token
  that does not verify, a token whose user is gone, or the user it names. Of a user
  the handlers read the id, \<open>isActive\<close> (here \<open>isActive_u\<close>), the role and the
  result of \<open>isPremium()\<close>.
\<close>

record principal =
  uid :: oid
  isActive_u :: bool
  role :: string
  isPremium :: bool

datatype credential = NoToken | InvalidToken | UnknownUser | Resolved principal

text \<open>
  A handler answers with \<open>res.status(code).json(...)\<close>, \<open>success\<close> false
  (\<open>Reject\<close>) or true (\<open>Accept\<close>), or it throws (\<open>Thrown\<close>) and sends nothing itself.
\<close>

datatype 'd response = Reject nat string | Accept nat string 'd | Thrown exn

definition protect :: "credential \<Rightarrow> (nat \<times> string) + principal" where
  "protect c =
     (case c of
        NoToken \<Rightarrow> Inl (401, ''Access denied. No token provided.'')
      | InvalidToken \<Rightarrow> Inl (401, ''Invalid token.'')
      | UnknownUser \<Rightarrow> Inl (401, ''Token is valid but user no longer exists.'')
      | Resolved u \<Rightarrow>
          if \<not> isActive_u u
          then Inl (401, ''Account is deactivated. Please contact support.'')
          else Inr u)"

definition optionalAuth :: "credential \<Rightarrow> principal option" where
  "optionalAuth c =
     (case c of Resolved u \<Rightarrow> if isActive_u u then Some u else None | _ \<Rightarrow> None)"

definition authorize :: "string list \<Rightarrow> principal \<Rightarrow> (nat \<times> string) option" where
  "authorize roles u =
     (if role u \<notin> set roles
      then Some (403, ''Access denied. '' @ role u
                      @ '' role is not authorized to access this resource.'')
      else None)"

definition requirePremium :: "principal \<Rightarrow> (nat \<times> string) option" where
  "requirePremium u =
     (if \<not> isPremium u
      then Some (403, ''Premium subscription required to access this feature.'')
      else None)"

text \<open>\<open>isMongoId\<close>: a string of 24 hexadecimal digits.\<close>

definition isMongoId :: "string \<Rightarrow> bool" where
  "isMongoId s \<longleftrightarrow> length s = 24 \<and> list_all (\<lambda>c. c \<in> set ''0123456789abcdefABCDEF'') s"

definition validateObjectId :: "string \<Rightarrow> (nat \<times> string) option" where
  "validateObjectId s = (if isMongoId s then None else Some (400, ''Validation failed''))"

text \<open>\<open>trim\<close> removes the white space at both ends of a string.\<close>

definition is_space :: "char \<Rightarrow> bool" where
  "is_space c \<longleftrightarrow> c \<in> set [CHR '' '', CHR 0x09, CHR 0x0A, CHR 0x0B, CHR 0x0C, CHR 0x0D]"

definition trim :: "string \<Rightarrow> string" where
  "trim s = rev (dropWhile is_space (rev (dropWhile is_space s)))"

section \<open>The analysis routes (routes/analysisRoutes.js)\<close>

text \<open>
  Every handler takes the collection and returns its answer and the collection
  afterwards. \<open>not_owner\<close> is the test
  \<open>!req.user || analysis.user._id.toString() !== req.user.id\<close>.
\<close>

definition not_owner :: "principal option \<Rightarrow> analysis \<Rightarrow> bool" where
  "not_owner ru a = (case ru of None \<Rightarrow> True | Some u \<Rightarrow> user a \<noteq> uid u)"

definition findById :: "db \<Rightarrow> oid \<Rightarrow> analysis option" where
  "findById D i = D i"

text \<open>
  A handler that reads and then writes is given in two parts: the middleware and
  \<open>findById\<close>, and the rest of the body (\<open>..._found\<close>), which runs once the query has
  answered, on the collection as it is by then.
\<close>

definition get_found ::
  "principal option \<Rightarrow> analysis option \<Rightarrow> bool \<Rightarrow> db \<Rightarrow> analysis response \<times> db" where
  "get_found ru found dbOk D =
     (case found of
        None \<Rightarrow> (Reject 404 ''Analysis not found'', D)
      | Some a \<Rightarrow>
          if \<not> isPublic a \<and> not_owner ru a then (Reject 403 ''Access denied'', D)
          else if not_owner ru a then
            (case incrementViews dbOk a D of
               (Some e, _, D') \<Rightarrow> (Thrown e, D')
             | (None, a', D') \<Rightarrow> (Accept 200 [] a', D'))
          else (Accept 200 [] a, D))"

definition get_by_id :: "db \<Rightarrow> credential \<Rightarrow> string \<Rightarrow> bool \<Rightarrow> analysis response \<times> db" where
  "get_by_id D c i dbOk =
     (let ru = optionalAuth c in
      case validateObjectId i of
        Some (code, msg) \<Rightarrow> (Reject code msg, D)
      | None \<Rightarrow> get_found ru (findById D i) dbOk D)"

record create_body =
  c_title :: string
  c_description :: "string option"
  c_floorPlan :: floor_plan
  c_isPublic :: "bool option"
  c_tags :: "string list option"

text \<open>
  \<open>validateAnalysis\<close>: the title, trimmed, has 3 to 100 characters; the description,
  trimmed, at most 500; the orientation is one of the eight; the top-level length and
  width, when given, are at least 1.
\<close>

definition at_least_one :: "real option \<Rightarrow> bool" where
  "at_least_one x = (case x of None \<Rightarrow> True | Some v \<Rightarrow> 1 \<le> v)"

definition validateAnalysis :: "create_body \<Rightarrow> bool" where
  "validateAnalysis b \<longleftrightarrow>
     3 \<le> length (trim (c_title b)) \<and> length (trim (c_title b)) \<le> 100
     \<and> (case c_description b of None \<Rightarrow> True | Some d \<Rightarrow> length (trim d) \<le> 500)
     \<and> orientation (c_floorPlan b) \<noteq> None
     \<and> at_least_one (length_dim (dimensions (c_floorPlan b)))
     \<and> at_least_one (width (dimensions (c_floorPlan b)))"

definition default_vastu :: vastu where
  "default_vastu = \<lparr>overallScore = 0, energyFlowScore = None, summary = None\<rparr>"

definition new_analysis :: "oid \<Rightarrow> oid \<Rightarrow> create_body \<Rightarrow> analysis" where
  "new_analysis newId owner b =
     \<lparr>aid = newId, user = owner, title = trim (c_title b),
      description = map_option trim (c_description b), files = [],
      floorPlan = c_floorPlan b, vastuAnalysis = default_vastu, status = Pending,
      processingStartedAt = None, completedAt = None, processingTime = None,
      isPublic = (case c_isPublic b of None \<Rightarrow> False | Some p \<Rightarrow> p),
      tags = (case c_tags b of None \<Rightarrow> [] | Some ts \<Rightarrow> ts),
      views = 0, likes = 0, shares = 0\<rparr>"

definition create_analysis ::
  "db \<Rightarrow> credential \<Rightarrow> create_body \<Rightarrow> oid \<Rightarrow> bool \<Rightarrow> analysis response \<times> db" where
  "create_analysis D c b newId dbOk =
     (case protect c of
        Inl (code, msg) \<Rightarrow> (Reject code msg, D)
      | Inr u \<Rightarrow>
          if \<not> validateAnalysis b then (Reject 400 ''Validation failed'', D)
          else
            (case insert_doc dbOk (new_analysis newId (uid u) b) D of
               (Some e, _, D') \<Rightarrow> (Thrown e, D')
             | (None, a', D') \<Rightarrow> (Accept 201 ''Analysis created successfully'' a', D')))"

record update_body =
  u_title :: "string option"
  u_description :: "string option"
  u_isPublic :: "bool option"
  u_tags :: "string list option"

definition apply_update :: "update_body \<Rightarrow> analysis \<Rightarrow> analysis" where
  "apply_update b a =
     (let a1 = (case u_title b of
                  None \<Rightarrow> a
                | Some t \<Rightarrow> if t \<noteq> [] then a\<lparr>title := trim t\<rparr> else a);
          a2 = (case u_description b of
                  None \<Rightarrow> a1
                | Some d \<Rightarrow> a1\<lparr>description := Some (trim d)\<rparr>);
          a3 = (case u_isPublic b of None \<Rightarrow> a2 | Some p \<Rightarrow> a2\<lparr>isPublic := p\<rparr>)
      in case u_tags b of None \<Rightarrow> a3 | Some ts \<Rightarrow> a3\<lparr>tags := ts\<rparr>)"

definition update_analysis ::
  "db \<Rightarrow> credential \<Rightarrow> string \<Rightarrow> update_body \<Rightarrow> bool \<Rightarrow> analysis response \<times> db" where
  "update_analysis D c i b dbOk =
     (case protect c of
        Inl (code, msg) \<Rightarrow> (Reject code msg, D)
      | Inr u \<Rightarrow>
         (case validateObjectId i of
            Some (code, msg) \<Rightarrow> (Reject code msg, D)
          | None \<Rightarrow>
             (case findById D i of
                None \<Rightarrow> (Reject 404 ''Analysis not found'', D)
              | Some a \<Rightarrow>
                  if user a \<noteq> uid u then (Reject 403 ''Access denied'', D)
                  else
                    (case save True dbOk (apply_update b a) D of
                       (Some e, _, D') \<Rightarrow> (Thrown e, D')
                     | (None, a', D') \<Rightarrow>
                         (Accept 200 ''Analysis updated successfully'' a', D')))))"

definition delete_analysis ::
  "db \<Rightarrow> credential \<Rightarrow> string \<Rightarrow> bool \<Rightarrow> unit response \<times> db" where
  "delete_analysis D c i dbOk =
     (case protect c of
        Inl (code, msg) \<Rightarrow> (Reject code msg, D)
      | Inr u \<Rightarrow>
         (case validateObjectId i of
            Some (code, msg) \<Rightarrow> (Reject code msg, D)
          | None \<Rightarrow>
             (case findById D i of
                None \<Rightarrow> (Reject 404 ''Analysis not found'', D)
              | Some a \<Rightarrow>
                  if user a \<noteq> uid u then (Reject 403 ''Access denied'', D)
                  else if \<not> dbOk then (Thrown DbError, D)
                  else (Accept 200 ''Analysis deleted successfully'' (), D(i := None)))))"

text \<open>
  \<open>start\<close> answers as soon as the status is saved. The callback it hands to
  \<open>setTimeout\<close> is the third component of the result: the document in memory that
  the callback will work on, five seconds later.
\<close>

definition start_found ::
  "principal \<Rightarrow> analysis option \<Rightarrow> msec \<Rightarrow> bool \<Rightarrow> db
     \<Rightarrow> analysis response \<times> db \<times> analysis option" where
  "start_found u found now dbOk D =
     (case found of
        None \<Rightarrow> (Reject 404 ''Analysis not found'', D, None)
      | Some a \<Rightarrow>
          if user a \<noteq> uid u then (Reject 403 ''Access denied'', D, None)
          else if status a \<noteq> Pending then
            (Reject 400 ''Analysis is already being processed or completed'', D, None)
          else
            (case updateStatus Processing now dbOk a D of
               (Some e, _, D') \<Rightarrow> (Thrown e, D', None)
             | (None, a', D') \<Rightarrow>
                 (Accept 200 ''Analysis processing started'' a', D', Some a')))"

definition start_analysis ::
  "db \<Rightarrow> credential \<Rightarrow> string \<Rightarrow> msec \<Rightarrow> bool \<Rightarrow> analysis response \<times> db \<times> analysis option" where
  "start_analysis D c i now dbOk =
     (case protect c of
        Inl (code, msg) \<Rightarrow> (Reject code msg, D, None)
      | Inr u \<Rightarrow>
         (case requirePremium u of
            Some (code, msg) \<Rightarrow> (Reject code msg, D, None)
          | None \<Rightarrow>
             (case validateObjectId i of
                Some (code, msg) \<Rightarrow> (Reject code msg, D, None)
              | None \<Rightarrow> start_found u (findById D i) now dbOk D)))"

text \<open>
  The callback: the mock result (its two scores come from \<open>Math.random\<close>, here the
  draws \<open>r1\<close> and \<open>r2\<close> in \<open>[0, 1)\<close>) is attached and the status set to completed;
  when that throws, the status of the same document in memory is set to failed and
  saved again. \<open>t1\<close>, \<open>ok1\<close> are the time and the database's answer at the first
  save, \<open>t2\<close>, \<open>ok2\<close> at the second.
\<close>

definition mockResults :: "real \<Rightarrow> real \<Rightarrow> vastu" where
  "mockResults r1 r2 =
     \<lparr>overallScore = of_int \<lfloor>r1 * 40\<rfloor> + 60,
      energyFlowScore = Some (of_int \<lfloor>r2 * 30\<rfloor> + 70),
      summary = Some ''Overall good Vastu compliance with some areas needing attention. Focus on kitchen and bathroom placement for optimal energy flow.''\<rparr>"

definition processing_callback ::
  "analysis \<Rightarrow> real \<Rightarrow> real \<Rightarrow> msec \<Rightarrow> bool \<Rightarrow> msec \<Rightarrow> bool \<Rightarrow> db \<Rightarrow> exn option \<times> analysis \<times> db" where
  "processing_callback a r1 r2 t1 ok1 t2 ok2 D =
     (case updateStatus Completed t1 ok1 (a\<lparr>vastuAnalysis := mockResults r1 r2\<rparr>) D of
        (None, a', D') \<Rightarrow> (None, a', D')
      | (Some e, a', D') \<Rightarrow> updateStatus Failed t2 ok2 a' D')"

definition like_found :: "analysis option \<Rightarrow> bool \<Rightarrow> db \<Rightarrow> int response \<times> db" where
  "like_found found dbOk D =
     (case found of
        None \<Rightarrow> (Reject 404 ''Analysis not found'', D)
      | Some a \<Rightarrow>
          if \<not> isPublic a then (Reject 403 ''Cannot like private analysis'', D)
          else
            (case like dbOk a D of
               (Some e, _, D') \<Rightarrow> (Thrown e, D')
             | (None, a', D') \<Rightarrow>
                 (Accept 200 ''Analysis liked successfully'' (likes a'), D')))"

definition like_analysis :: "db \<Rightarrow> credential \<Rightarrow> string \<Rightarrow> bool \<Rightarrow> int response \<times> db" where
  "like_analysis D c i dbOk =
     (case protect c of
        Inl (code, msg) \<Rightarrow> (Reject code msg, D)
      | Inr u \<Rightarrow>
         (case validateObjectId i of
            Some (code, msg) \<Rightarrow> (Reject code msg, D)
          | None \<Rightarrow> like_found (findById D i) dbOk D))"

definition share_found :: "analysis option \<Rightarrow> bool \<Rightarrow> db \<Rightarrow> int response \<times> db" where
  "share_found found dbOk D =
     (case found of
        None \<Rightarrow> (Reject 404 ''Analysis not found'', D)
      | Some a \<Rightarrow>
          if \<not> isPublic a then (Reject 403 ''Cannot share private analysis'', D)
          else
            (case share dbOk a D of
               (Some e, _, D') \<Rightarrow> (Thrown e, D')
             | (None, a', D') \<Rightarrow>
                 (Accept 200 ''Analysis shared successfully'' (shares a'), D')))"

definition share_analysis :: "db \<Rightarrow> credential \<Rightarrow> string \<Rightarrow> bool \<Rightarrow> int response \<times> db" where
  "share_analysis D c i dbOk =
     (case protect c of
        Inl (code, msg) \<Rightarrow> (Reject code msg, D)
      | Inr u \<Rightarrow>
         (case validateObjectId i of
            Some (code, msg) \<Rightarrow> (Reject code msg, D)
          | None \<Rightarrow> share_found (findById D i) dbOk D))"

section \<open>The upload route (POST /api/upload/files)\<close>

text \<open>
  The Blob Store is the list of the public ids it holds. What it answers to each
  upload (\<open>None\<close> when \<open>uploadToCloudinary\<close> throws) and whether it carries out a
  \<open>destroy\<close> are inputs of the model. Of the answer to an upload the route keeps the
  public id, the URL and the size; the schema has no path for the rest.
\<close>

record upload =
  originalname :: string
  u_mimetype :: string

record cloud_result =
  public_id :: string
  secure_url :: string
  bytes :: int

record upload_body =
  f_title :: "string option"
  f_description :: "string option"

definition validateFileUpload :: "upload_body \<Rightarrow> bool" where
  "validateFileUpload b \<longleftrightarrow>
     (case f_title b of
        None \<Rightarrow> True
      | Some t \<Rightarrow> 3 \<le> length (trim t) \<and> length (trim t) \<le> 100)
     \<and> (case f_description b of None \<Rightarrow> True | Some d \<Rightarrow> length (trim d) \<le> 500)"

text \<open>
  The loop over \<open>req.files\<close>: it stops at the first upload that throws, with the
  files pushed to \<open>uploadedFiles\<close> so far.
\<close>

fun upload_each ::
  "(upload \<times> cloud_result option) list \<Rightarrow> string list \<Rightarrow> file_ref list
     \<Rightarrow> bool \<times> file_ref list \<times> string list" where
  "upload_each [] B acc = (True, acc, B)"
| "upload_each ((f, None) # rest) B acc = (False, acc, B)"
| "upload_each ((f, Some r) # rest) B acc =
     upload_each rest (public_id r # B)
       (acc @ [\<lparr>filename = public_id r, originalName = originalname f, url = secure_url r,
                size_bytes = Some (bytes r), mimetype = u_mimetype f\<rparr>])"

text \<open>
  The clean-up loop: one \<open>destroy\<close> for every file of \<open>uploadedFiles\<close>; a
  \<open>destroy\<close> that throws is logged and the loop goes on. The result is the Blob Store
  afterwards, the ids whose deletion was requested and the log.
\<close>

fun cleanup ::
  "(string \<Rightarrow> bool) \<Rightarrow> file_ref list \<Rightarrow> string list
     \<Rightarrow> string list \<times> string list \<times> string list" where
  "cleanup destroyOk [] B = (B, [], [])"
| "cleanup destroyOk (f # fs) B =
     (if destroyOk (filename f)
      then (case cleanup destroyOk fs (removeAll (filename f) B) of
              (B', req, lg) \<Rightarrow> (B', filename f # req, lg))
      else (case cleanup destroyOk fs B of
              (B', req, lg) \<Rightarrow> (B', filename f # req, ''Failed to cleanup file:'' # lg)))"

text \<open>
  The route gives the model the owner, the title, the description, the files and the
  status. The floor plan of the new document is the empty one of the schema, without
  an orientation.
\<close>

definition empty_plan :: floor_plan where
  "empty_plan =
     \<lparr>dimensions = \<lparr>length_dim = None, width = None, area = None, unit_dim = Sqft\<rparr>,
      orientation = None, rooms = []\<rparr>"

definition uploaded_analysis ::
  "oid \<Rightarrow> oid \<Rightarrow> upload_body \<Rightarrow> string \<Rightarrow> file_ref list \<Rightarrow> analysis" where
  "uploaded_analysis newId owner b today fs =
     \<lparr>aid = newId, user = owner,
      title = (case f_title b of
                 None \<Rightarrow> ''Analysis '' @ today
               | Some t \<Rightarrow> if trim t = [] then ''Analysis '' @ today else trim t),
      description = (case f_description b of None \<Rightarrow> Some [] | Some d \<Rightarrow> Some (trim d)),
      files = fs, floorPlan = empty_plan, vastuAnalysis = default_vastu, status = Pending,
      processingStartedAt = None, completedAt = None, processingTime = None,
      isPublic = False, tags = [], views = 0, likes = 0, shares = 0\<rparr>"

record upload_result =
  answer :: "analysis response"
  analyses :: db
  blobs :: "string list"
  destroy_requests :: "string list"
  console :: "string list"

definition upload_files ::
  "db \<Rightarrow> string list \<Rightarrow> credential \<Rightarrow> bool \<Rightarrow> (upload \<times> cloud_result option) list
     \<Rightarrow> upload_body \<Rightarrow> string \<Rightarrow> oid \<Rightarrow> bool \<Rightarrow> (string \<Rightarrow> bool) \<Rightarrow> upload_result" where
  "upload_files D B c limited fs b today newId dbOk destroyOk =
     (let stop = (\<lambda>r. \<lparr>answer = r, analyses = D, blobs = B, destroy_requests = [],
                         console = []\<rparr>) in
      case protect c of
        Inl (code, msg) \<Rightarrow> stop (Reject code msg)
      | Inr u \<Rightarrow>
          if limited then stop (Reject 429 ''Upload limit exceeded, please try again later.'')
          else if \<not> validateFileUpload b then stop (Reject 400 ''Validation failed'')
          else if fs = [] then stop (Reject 400 ''No files uploaded'')
          else
            (case upload_each fs B [] of
               (False, uploadedFiles, B1) \<Rightarrow>
                 (case cleanup destroyOk uploadedFiles B1 of
                    (B2, req, lg) \<Rightarrow>
                      \<lparr>answer = Thrown UploadFailed, analyses = D, blobs = B2,
                       destroy_requests = req, console = lg\<rparr>)
             | (True, uploadedFiles, B1) \<Rightarrow>
                 (case insert_doc dbOk (uploaded_analysis newId (uid u) b today uploadedFiles) D of
                    (Some e, _, D') \<Rightarrow>
                      (case cleanup destroyOk uploadedFiles B1 of
                         (B2, req, lg) \<Rightarrow>
                           \<lparr>answer = Thrown e, analyses = D', blobs = B2,
                            destroy_requests = req, console = lg\<rparr>)
                  | (None, a', D') \<Rightarrow>
                      \<lparr>answer = Accept 201 ''Files uploaded successfully'' a', analyses = D',
                       blobs = B1, destroy_requests = [], console = []\<rparr>)))"

section \<open>Registration (routes/authRoutes.js)\<close>

text \<open>
  The User model is not part of the sources at hand: what \<open>User.findOne\<close> and
  \<open>User.create\<close> answer are inputs of the model, as are the outcome of the
  validation middleware, of the rate limit and of the mail transport.
\<close>

record reg_body =
  r_firstName :: string
  r_lastName :: string
  r_email :: string
  r_phone :: "string option"
  r_password :: string

record user_doc =
  u_id :: oid
  firstName :: string
  lastName :: string
  email :: string
  phone :: "string option"
  isEmailVerified :: bool
  emailVerificationToken :: "string option"
  emailVerificationExpire :: "msec option"

type_synonym users = "oid \<rightharpoonup> user_doc"

record mail =
  recipient :: string
  subject :: string
  template :: string

text \<open>\<open>sendEmail\<close> logs its own failure and throws it again.\<close>

definition sendEmail :: "bool \<Rightarrow> mail \<Rightarrow> bool \<times> mail list \<times> string list" where
  "sendEmail ok m =
     (if ok then (True, [m], [''Email sent successfully:''])
      else (False, [], [''Email sending failed:'']))"

record register_result =
  reg_answer :: "user_doc response"
  reg_users :: users
  outbox :: "mail list"
  reg_console :: "string list"

definition register ::
  "users \<Rightarrow> bool \<Rightarrow> bool \<Rightarrow> reg_body \<Rightarrow> user_doc option \<Rightarrow> exn + user_doc \<Rightarrow> string \<Rightarrow> msec
     \<Rightarrow> bool \<Rightarrow> bool \<Rightarrow> register_result" where
  "register U limited validated b existingUser created tokenHash now saveOk emailOk =
     (let stop = (\<lambda>r. \<lparr>reg_answer = r, reg_users = U, outbox = [], reg_console = []\<rparr>) in
      if limited
      then stop (Reject 429 ''Too many authentication attempts, please try again later.'')
      else if \<not> validated then stop (Reject 400 ''Validation failed'')
      else if (case existingUser of None \<Rightarrow> False | Some x \<Rightarrow> email x = r_email b)
      then stop (Reject 400 ''Email address is already registered'')
      else if (case existingUser of None \<Rightarrow> False | Some x \<Rightarrow> phone x = r_phone b)
      then stop (Reject 400 ''Phone number is already registered'')
      else
        (case created of
           Inl e \<Rightarrow> stop (Thrown e)
         | Inr u0 \<Rightarrow>
             let U1 = U(u_id u0 \<mapsto> u0);
                 u1 = u0\<lparr>emailVerificationToken := Some tokenHash,
                         emailVerificationExpire := Some (now + 24 * 60 * 60 * 1000)\<rparr>
             in if \<not> saveOk
                then \<lparr>reg_answer = Thrown DbError, reg_users = U1, outbox = [],
                      reg_console = []\<rparr>
                else
                  (case sendEmail emailOk
                          \<lparr>recipient = email u1,
                           subject = ''Verify Your Vastu Vision Account'',
                           template = ''emailVerification''\<rparr> of
                     (True, sent, lg) \<Rightarrow>
                       \<lparr>reg_answer = Accept 201 ''Registration successful! Please check your email to verify your account.'' u1,
                        reg_users = U1(u_id u1 \<mapsto> u1), outbox = sent, reg_console = lg\<rparr>
                   | (False, sent, lg) \<Rightarrow>
                       \<lparr>reg_answer = Accept 201 ''Registration successful! Please check your email to verify your account.'' u1,
                        reg_users = U1(u_id u1 \<mapsto> u1), outbox = sent,
                        reg_console = lg @ [''Email sending failed:'']\<rparr>)))"

section \<open>The rule catalogue (the VastuRule model and the routes under /api/vastu)\<close>

text \<open>
  The collection of rules is a list, since the queries enumerate it. The enumerated
  paths of a rule are strings here: the routes compare them with the strings of a
  query.
\<close>

record remedy =
  m_type :: "string option"
  m_description :: "string option"
  m_cost :: "string option"
  m_difficulty :: "string option"

record rule =
  rid :: oid
  r_name :: string
  r_category :: string
  r_description :: string
  r_direction :: "string option"
  r_roomType :: "string option"
  r_element :: "string option"
  r_importance :: string
  r_impact :: string
  r_remedies :: "remedy list"
  isActive :: bool
  r_priority :: real
  r_tags :: "string list"
  r_version :: int

type_synonym catalogue = "rule list"

definition valid_rule :: "rule \<Rightarrow> bool" where
  "valid_rule r \<longleftrightarrow>
     r_name r \<noteq> []
     \<and> r_category r \<in> set [''direction'', ''room-placement'', ''five-elements'',
          ''energy-flow'', ''color-scheme'', ''furniture-placement'', ''entrance'',
          ''kitchen'', ''bedroom'', ''bathroom'', ''puja-room'', ''general'']
     \<and> r_description r \<noteq> []
     \<and> (case r_direction r of None \<Rightarrow> True | Some d \<Rightarrow>
           d \<in> set [''north'', ''south'', ''east'', ''west'', ''northeast'', ''northwest'',
                     ''southeast'', ''southwest'', ''center'', ''any''])
     \<and> (case r_roomType r of None \<Rightarrow> True | Some t \<Rightarrow>
           t \<in> set [''bedroom'', ''living-room'', ''kitchen'', ''bathroom'', ''dining-room'',
                     ''study'', ''puja-room'', ''balcony'', ''entrance'', ''any''])
     \<and> (case r_element r of None \<Rightarrow> True | Some e \<Rightarrow>
           e \<in> set [''earth'', ''water'', ''fire'', ''air'', ''space'', ''any''])
     \<and> r_importance r \<in> set [''critical'', ''high'', ''medium'', ''low'']
     \<and> r_impact r \<in> set [''positive'', ''negative'', ''neutral'']
     \<and> list_all (\<lambda>m.
           (case m_type m of None \<Rightarrow> True | Some t \<Rightarrow>
              t \<in> set [''color'', ''placement'', ''decoration'', ''construction'', ''other''])
           \<and> (case m_cost m of None \<Rightarrow> True | Some c \<Rightarrow> c \<in> set [''low'', ''medium'', ''high''])
           \<and> (case m_difficulty m of None \<Rightarrow> True | Some d \<Rightarrow>
                 d \<in> set [''easy'', ''medium'', ''hard''])) (r_remedies r)
     \<and> 1 \<le> r_priority r \<and> r_priority r \<le> 10"

text \<open>
  \<open>findById\<close> on the rules, which no validator precedes: an id that does not cast
  to an ObjectId (here, that is not 24 hexadecimal digits) makes the query throw.
\<close>

definition findRuleById :: "catalogue \<Rightarrow> string \<Rightarrow> exn + rule option" where
  "findRuleById R i = (if \<not> isMongoId i then Inl CastError else Inr (find (\<lambda>r. rid r = i) R))"

definition save_rule :: "bool \<Rightarrow> rule \<Rightarrow> catalogue \<Rightarrow> exn option \<times> catalogue" where
  "save_rule dbOk r R =
     (if \<not> valid_rule r then (Some ValidationError, R)
      else if \<not> dbOk then (Some DbError, R)
      else (None, map (\<lambda>x. if rid x = rid r then r else x) R))"

text \<open>
  A filter of a query is given when it is a non-empty string. \<open>{$in: [v, 'any']}\<close>
  is \<open>in_or_any\<close>.
\<close>

definition given :: "string option \<Rightarrow> bool" where
  "given q \<longleftrightarrow> q \<noteq> None \<and> q \<noteq> Some []"

definition in_or_any :: "string option \<Rightarrow> string option \<Rightarrow> bool" where
  "in_or_any q v \<longleftrightarrow> (given q \<longrightarrow> v = q \<or> v = Some ''any'')"

definition equals :: "string option \<Rightarrow> string \<Rightarrow> bool" where
  "equals q v \<longleftrightarrow> (given q \<longrightarrow> q = Some v)"

text \<open>\<open>sort({priority: -1, importance: -1})\<close> and \<open>sort({priority: -1})\<close>.\<close>

definition sort_rules :: "rule list \<Rightarrow> rule list" where
  "sort_rules rs = rev (sort_key (\<lambda>r. (r_priority r, r_importance r)) rs)"

definition sort_by_priority :: "rule list \<Rightarrow> rule list" where
  "sort_by_priority rs = rev (sort_key r_priority rs)"

record rule_filters =
  q_category :: "string option"
  q_direction :: "string option"
  q_roomType :: "string option"
  q_element :: "string option"
  q_importance :: "string option"

definition getByCategory :: "catalogue \<Rightarrow> string \<Rightarrow> rule_filters \<Rightarrow> rule list" where
  "getByCategory R cat opts =
     sort_rules (filter (\<lambda>r. r_category r = cat \<and> isActive r
        \<and> in_or_any (q_direction opts) (r_direction r)
        \<and> in_or_any (q_roomType opts) (r_roomType r)
        \<and> in_or_any (q_element opts) (r_element r)
        \<and> equals (q_importance opts) (r_importance r)) R)"

definition getCriticalRules :: "catalogue \<Rightarrow> rule list" where
  "getCriticalRules R =
     sort_by_priority (filter (\<lambda>r. isActive r \<and> r_importance r = ''critical'') R)"

text \<open>
  \<open>rx t s\<close> stands for the database's test that the regular expression \<open>t\<close>,
  case-insensitive, matches the string \<open>s\<close>.
\<close>

definition searchRules ::
  "(string \<Rightarrow> string \<Rightarrow> bool) \<Rightarrow> catalogue \<Rightarrow> string \<Rightarrow> rule_filters \<Rightarrow> rule list" where
  "searchRules rx R searchTerm filters =
     sort_rules (filter (\<lambda>r. isActive r
        \<and> (rx searchTerm (r_name r) \<or> rx searchTerm (r_description r)
             \<or> (\<exists>t \<in> set (r_tags r). rx searchTerm t))
        \<and> equals (q_category filters) (r_category r)
        \<and> in_or_any (q_direction filters) (r_direction r)
        \<and> in_or_any (q_roomType filters) (r_roomType r)
        \<and> in_or_any (q_element filters) (r_element r)
        \<and> equals (q_importance filters) (r_importance r)) R)"

definition getApplicableRemedies :: "rule \<Rightarrow> string \<Rightarrow> string \<Rightarrow> remedy list" where
  "getApplicableRemedies r budget difficulty =
     filter (\<lambda>m.
        (budget = ''any'' \<or> m_cost m = Some budget \<or> m_cost m = Some ''low'')
        \<and> (difficulty = ''any'' \<or> m_difficulty m = Some difficulty
             \<or> m_difficulty m = Some ''easy'')) (r_remedies r)"

text \<open>
  The routes. \<open>page\<close> and \<open>limit\<close> are the two query parameters as integers, when
  given; \<open>select\<close>, which only hides paths of the rules returned, is left out.
\<close>

definition validatePagination :: "int option \<Rightarrow> int option \<Rightarrow> bool" where
  "validatePagination page limit \<longleftrightarrow>
     (case page of None \<Rightarrow> True | Some p \<Rightarrow> 1 \<le> p)
     \<and> (case limit of None \<Rightarrow> True | Some l \<Rightarrow> 1 \<le> l \<and> l \<le> 100)"

definition or_default :: "int option \<Rightarrow> int \<Rightarrow> int" where
  "or_default x d = (case x of None \<Rightarrow> d | Some v \<Rightarrow> if v = 0 then d else v)"

definition list_rules ::
  "catalogue \<Rightarrow> int option \<Rightarrow> int option \<Rightarrow> rule_filters \<Rightarrow> string option
     \<Rightarrow> (rule list \<times> int \<times> int) response" where
  "list_rules R page limit q impact =
     (if \<not> validatePagination page limit then Reject 400 ''Validation failed''
      else
        let p = or_default page 1; l = or_default limit 20; skip = (p - 1) * l;
            matching = filter (\<lambda>r. isActive r
              \<and> equals (q_category q) (r_category r)
              \<and> in_or_any (q_direction q) (r_direction r)
              \<and> in_or_any (q_roomType q) (r_roomType r)
              \<and> in_or_any (q_element q) (r_element r)
              \<and> equals (q_importance q) (r_importance r)
              \<and> equals impact (r_impact r)) R
        in Accept 200 []
             (take (nat l) (drop (nat skip) (sort_rules matching)), p, int (length matching)))"

definition get_rule :: "catalogue \<Rightarrow> string \<Rightarrow> rule response" where
  "get_rule R i =
     (case findRuleById R i of
        Inl e \<Rightarrow> Thrown e
      | Inr None \<Rightarrow> Reject 404 ''Vastu rule not found''
      | Inr (Some r) \<Rightarrow>
          if \<not> isActive r then Reject 404 ''Vastu rule not found'' else Accept 200 [] r)"

definition search_rules ::
  "(string \<Rightarrow> string \<Rightarrow> bool) \<Rightarrow> catalogue \<Rightarrow> string option \<Rightarrow> rule_filters
     \<Rightarrow> (rule list) response" where
  "search_rules rx R q filters =
     (if \<not> given q then Reject 400 ''Search query is required''
      else Accept 200 [] (searchRules rx R (the q) filters))"

definition rules_by_category :: "catalogue \<Rightarrow> string \<Rightarrow> rule_filters \<Rightarrow> (rule list) response" where
  "rules_by_category R cat q = Accept 200 [] (getByCategory R cat (q\<lparr>q_importance := None\<rparr>))"

definition critical_rules :: "catalogue \<Rightarrow> (rule list) response" where
  "critical_rules R = Accept 200 [] (getCriticalRules R)"

definition rule_remedies ::
  "catalogue \<Rightarrow> string \<Rightarrow> string option \<Rightarrow> string option \<Rightarrow> (remedy list) response" where
  "rule_remedies R i budget difficulty =
     (case findRuleById R i of
        Inl e \<Rightarrow> Thrown e
      | Inr None \<Rightarrow> Reject 404 ''Vastu rule not found''
      | Inr (Some r) \<Rightarrow>
          if \<not> isActive r then Reject 404 ''Vastu rule not found''
          else Accept 200 []
                 (getApplicableRemedies r
                    (case budget of None \<Rightarrow> ''medium'' | Some b \<Rightarrow> b)
                    (case difficulty of None \<Rightarrow> ''medium'' | Some d \<Rightarrow> d)))"

text \<open>
  \<open>DELETE /rules/:id\<close>: the rule is marked inactive and saved; the pre-save hook of
  the model adds one to the version of a rule that was modified.
\<close>

definition deactivate :: "rule \<Rightarrow> rule" where
  "deactivate r = (if isActive r then r\<lparr>isActive := False, r_version := r_version r + 1\<rparr> else r)"

definition delete_rule :: "catalogue \<Rightarrow> credential \<Rightarrow> string \<Rightarrow> bool \<Rightarrow> unit response \<times> catalogue" where
  "delete_rule R c i dbOk =
     (case protect c of
        Inl (code, msg) \<Rightarrow> (Reject code msg, R)
      | Inr u \<Rightarrow>
         (case authorize [''admin''] u of
            Some (code, msg) \<Rightarrow> (Reject code msg, R)
          | None \<Rightarrow>
             (case findRuleById R i of
                Inl e \<Rightarrow> (Thrown e, R)
              | Inr None \<Rightarrow> (Reject 404 ''Vastu rule not found'', R)
              | Inr (Some r) \<Rightarrow>
                 (case save_rule dbOk (deactivate r) R of
                    (Some e, R') \<Rightarrow> (Thrown e, R')
                  | (None, R') \<Rightarrow>
                      (Accept 200 ''Vastu rule deactivated successfully'' (), R')))))"

section \<open>The service when runs do not overlap\<close>

text \<open>
  The state of the service: the collection, the callbacks that \<open>setTimeout\<close> holds
  (each with the document it captured) and the ObjectIds generated so far (a new one
  differs from all of them). One step is one handler run from its first line to its
  answer, or one callback run to its end, on any request and any answer of the
  database.

  This is the service with its runs one after the other: a handler that has read
  goes on to its save before another run begins. The code itself does not enforce
  that: a handler waits for the database between its query and its save, and another
  run may come in between. Runs that overlap are not steps of \<open>step\<close>; they are
  written out from the two parts of a handler (\<open>findById\<close>, then the body
  \<open>..._found\<close>), as in \<open>started_second\<close> and \<open>liked_second\<close> below.
\<close>

record sys =
  store :: db
  timers :: "analysis list"
  issued :: "oid list"

definition init :: sys where
  "init = \<lparr>store = Map.empty, timers = [], issued = []\<rparr>"

inductive step :: "sys \<Rightarrow> sys \<Rightarrow> bool" where
  Create:
    "newId \<notin> set (issued s) \<Longrightarrow> create_analysis (store s) c b newId ok = (r, D')
     \<Longrightarrow> step s (s\<lparr>store := D', issued := newId # issued s\<rparr>)"
| Upload:
    "newId \<notin> set (issued s)
     \<Longrightarrow> upload_files (store s) B c limited fs ub today newId ok destroyOk = res
     \<Longrightarrow> step s (s\<lparr>store := analyses res, issued := newId # issued s\<rparr>)"
| Get:
    "get_by_id (store s) c i ok = (r, D') \<Longrightarrow> step s (s\<lparr>store := D'\<rparr>)"
| Update:
    "update_analysis (store s) c i b ok = (r, D') \<Longrightarrow> step s (s\<lparr>store := D'\<rparr>)"
| Delete:
    "delete_analysis (store s) c i ok = (ru, D') \<Longrightarrow> step s (s\<lparr>store := D'\<rparr>)"
| Like:
    "like_analysis (store s) c i ok = (rn, D') \<Longrightarrow> step s (s\<lparr>store := D'\<rparr>)"
| Share:
    "share_analysis (store s) c i ok = (rn, D') \<Longrightarrow> step s (s\<lparr>store := D'\<rparr>)"
| Start:
    "start_analysis (store s) c i now ok = (r, D', t)
     \<Longrightarrow> step s (s\<lparr>store := D', timers := (case t of None \<Rightarrow> [] | Some a \<Rightarrow> [a]) @ timers s\<rparr>)"
| Fire:
    "a \<in> set (timers s) \<Longrightarrow> processing_callback a r1 r2 t1 ok1 t2 ok2 (store s) = (e, a', D')
     \<Longrightarrow> step s (s\<lparr>store := D', timers := remove1 a (timers s)\<rparr>)"

inductive reachable :: "sys \<Rightarrow> bool" where
  reachable_init: "reachable init"
| reachable_step: "reachable s \<Longrightarrow> step s s' \<Longrightarrow> reachable s'"

text \<open>The three edges of the life cycle.\<close>

definition edge :: "status \<Rightarrow> status \<Rightarrow> bool" where
  "edge p q \<longleftrightarrow>
     (p = Pending \<and> q = Processing) \<or> (p = Processing \<and> q = Completed)
     \<or> (p = Processing \<and> q = Failed)"

text \<open>
  What holds in every state reached by runs that do not overlap: a document is stored under its own id, every
  id in use has been generated, and a callback that is still to run holds a document
  in processing whose stored copy, if any, is in processing; no two callbacks hold
  the same document.
\<close>

definition sys_inv :: "sys \<Rightarrow> bool" where
  "sys_inv s \<longleftrightarrow>
     (\<forall>i d. store s i = Some d \<longrightarrow> aid d = i \<and> i \<in> set (issued s))
     \<and> (\<forall>a \<in> set (timers s). aid a \<in> set (issued s) \<and> status a = Processing
            \<and> (\<forall>d. store s (aid a) = Some d \<longrightarrow> status d = Processing))
     \<and> distinct (map aid (timers s))"

section \<open>Notions used in the statements\<close>

text \<open>
  The area of a block of dimensions is in order when it is the product of the length
  and the width, whenever both are present and not zero.
\<close>

definition dims_ok :: "'a room_dimensions_scheme \<Rightarrow> bool" where
  "dims_ok d \<longleftrightarrow>
     (truthy (length_dim d) \<and> truthy (width d)
        \<longrightarrow> area d = Some (the (length_dim d) * the (width d)))"

definition area_ok :: "analysis \<Rightarrow> bool" where
  "area_ok a \<longleftrightarrow>
     dims_ok (dimensions (floorPlan a))
     \<and> list_all (\<lambda>r. dims_ok (rdimensions r)) (rooms (floorPlan a))"

text \<open>Every document that is new or changed in \<open>D'\<close> has its areas in order.\<close>

definition writes_ok :: "db \<Rightarrow> db \<Rightarrow> bool" where
  "writes_ok D D' \<longleftrightarrow> (\<forall>i a'. D' i = Some a' \<longrightarrow> D i \<noteq> Some a' \<longrightarrow> area_ok a')"

text \<open>A collection is keyed when every document is stored under its own id.\<close>

definition keyed :: "db \<Rightarrow> bool" where
  "keyed D \<longleftrightarrow> (\<forall>i d. D i = Some d \<longrightarrow> aid d = i)"

text \<open>
  \<open>D'\<close> is \<open>D\<close>, or \<open>D\<close> with the document stored at \<open>k\<close> replaced by one of the
  same id whose status is related to the old one by \<open>R\<close>.
\<close>

definition upd_at :: "db \<Rightarrow> db \<Rightarrow> oid \<Rightarrow> (status \<Rightarrow> status \<Rightarrow> bool) \<Rightarrow> bool" where
  "upd_at D D' k R \<longleftrightarrow>
     D' = D
     \<or> (\<exists>d d'. D k = Some d \<and> D' = D(k \<mapsto> d') \<and> aid d' = k \<and> R (status d) (status d'))"

text \<open>The ids that \<open>upload_each\<close> pushes before it stops.\<close>

definition uploaded_ids :: "(upload \<times> cloud_result option) list \<Rightarrow> string list" where
  "uploaded_ids fs = map (\<lambda>f. public_id (the (snd f))) (takeWhile (\<lambda>f. snd f \<noteq> None) fs)"

section \<open>Data for the examples\<close>

definition alice :: principal where
  "alice = \<lparr>uid = ''64b7f0c2a1d3e45f67890abc'', isActive_u = True, role = ''user'',
            isPremium = True\<rparr>"

definition bob :: principal where
  "bob = \<lparr>uid = ''64b7f0c2a1d3e45f67890abd'', isActive_u = True, role = ''user'',
          isPremium = False\<rparr>"

definition carol :: principal where
  "carol = \<lparr>uid = ''64b7f0c2a1d3e45f67890abe'', isActive_u = True, role = ''admin'',
            isPremium = True\<rparr>"

definition oid1 :: oid where
  "oid1 = ''507f1f77bcf86cd799439011''"

definition kitchen :: room where
  "kitchen = \<lparr>name = ''Kitchen'', rtype = Some Kitchen, position = None,
              rdimensions = \<lparr>length_dim = Some 4, width = Some 3, area = Some 99\<rparr>,
              direction = Some (Dir Southeast)\<rparr>"

definition plan1 :: floor_plan where
  "plan1 = \<lparr>dimensions = \<lparr>length_dim = Some 10, width = Some 12, area = None,
                           unit_dim = Sqft\<rparr>,
            orientation = Some North, rooms = [kitchen]\<rparr>"

text \<open>A plan that gives an area and neither a length nor a width.\<close>

definition plan2 :: "real \<Rightarrow> floor_plan" where
  "plan2 x = \<lparr>dimensions = \<lparr>length_dim = None, width = None, area = Some x,
                             unit_dim = Sqft\<rparr>,
              orientation = Some North, rooms = []\<rparr>"

definition body1 :: "floor_plan \<Rightarrow> create_body" where
  "body1 p = \<lparr>c_title = ''My Home'', c_description = None, c_floorPlan = p,
              c_isPublic = None, c_tags = None\<rparr>"

text \<open>
  The analysis that \<open>alice\<close> (or another owner) gets from \<open>body1 plan1\<close>, private or
  public, and the collection that holds just this analysis.
\<close>

definition home :: "principal \<Rightarrow> bool \<Rightarrow> analysis" where
  "home p pub = (preSave (new_analysis oid1 (uid p) (body1 plan1)))\<lparr>isPublic := pub\<rparr>"

definition db1 :: "principal \<Rightarrow> bool \<Rightarrow> db" where
  "db1 p pub = [oid1 \<mapsto> home p pub]"

text \<open>
  Two states of the service: \<open>s1\<close>, after \<open>alice\<close> has created her analysis, and
  \<open>s2\<close>, after she has started it at time 1000.
\<close>

definition s1 :: sys where
  "s1 = \<lparr>store = db1 alice False, timers = [], issued = [oid1]\<rparr>"

definition started :: "analysis response \<times> db \<times> analysis option" where
  "started = start_analysis (db1 alice False) (Resolved alice) oid1 1000 True"

definition s2 :: sys where
  "s2 = \<lparr>store = fst (snd started), timers = [the (snd (snd started))], issued = [oid1]\<rparr>"

text \<open>
  Two requests to like \<open>alice\<close>'s public analysis whose queries are both answered
  before either of them saves: the second one saves the document it found at the
  beginning into the collection that the first one has left. And two requests of
  \<open>alice\<close> to start her analysis, in the same order of events.
\<close>

definition liked_first :: "int response \<times> db" where
  "liked_first = like_found (findById (db1 alice True) oid1) True (db1 alice True)"

definition liked_second :: "int response \<times> db" where
  "liked_second = like_found (findById (db1 alice True) oid1) True (snd liked_first)"

definition started_first :: "analysis response \<times> db \<times> analysis option" where
  "started_first = start_found alice (findById (db1 alice False) oid1) 1000 True (db1 alice False)"

definition started_second :: "analysis response \<times> db \<times> analysis option" where
  "started_second =
     start_found alice (findById (db1 alice False) oid1) 1001 True (fst (snd started_first))"

text \<open>A catalogue of two rules, both active and critical.\<close>

definition rule1 :: rule where
  "rule1 = \<lparr>rid = oid1, r_name = ''Main entrance'', r_category = ''entrance'',
            r_description = ''The main entrance faces north or east.'',
            r_direction = Some ''north'', r_roomType = Some ''entrance'', r_element = None,
            r_importance = ''critical'', r_impact = ''positive'',
            r_remedies = [\<lparr>m_type = Some ''placement'', m_description = Some ''Move the door'',
                           m_cost = Some ''high'', m_difficulty = Some ''hard''\<rparr>],
            isActive = True, r_priority = 9, r_tags = [''entrance''], r_version = 1\<rparr>"

definition rule2 :: rule where
  "rule2 = \<lparr>rid = ''507f1f77bcf86cd799439012'', r_name = ''Kitchen in southeast'',
            r_category = ''kitchen'',
            r_description = ''The kitchen belongs in the southeast.'',
            r_direction = Some ''southeast'', r_roomType = Some ''kitchen'',
            r_element = Some ''fire'', r_importance = ''critical'', r_impact = ''positive'',
            r_remedies = [], isActive = True, r_priority = 8, r_tags = [], r_version = 1\<rparr>"

definition no_filters :: rule_filters where
  "no_filters = \<lparr>q_category = None, q_direction = None, q_roomType = None, q_element = None,
                 q_importance = None\<rparr>"

text \<open>
  The callbacks of these two starts, one after the other, on the collection that
  the second start has left: the first one saves its result; of the second one the
  save of the completed status is refused and the save of the failed status is taken.
\<close>

definition callback_first :: "exn option \<times> analysis \<times> db" where
  "callback_first =
     processing_callback (the (snd (snd started_first))) 0 0 6000 True 6000 True
       (fst (snd started_second))"

definition callback_second :: "exn option \<times> analysis \<times> db" where
  "callback_second =
     processing_callback (the (snd (snd started_second))) 0 0 6001 False 6002 True
       (snd (snd callback_first))"

section \<open>Saving and the handlers: what they do to the collection\<close>

lemma aid_preSave [simp]: "aid (preSave a) = aid a"
  by (simp add: preSave_def)

lemma status_preSave [simp]: "status (preSave a) = status a"
  by (simp add: preSave_def)

lemma aid_set_status [simp]: "aid (set_status st now a) = aid a"
  by (simp add: set_status_def Let_def split: option.splits)

lemma status_set_status [simp]: "status (set_status st now a) = st"
  by (simp add: set_status_def Let_def split: option.splits)

lemma aid_apply_update [simp]: "aid (apply_update b a) = aid a"
  by (simp add: apply_update_def Let_def split: option.splits)

lemma status_apply_update [simp]: "status (apply_update b a) = status a"
  by (simp add: apply_update_def Let_def split: option.splits)

lemma dims_ok_calcArea: "dims_ok (calcArea d)"
  by (auto simp: dims_ok_def calcArea_def)

lemma area_ok_preSave: "area_ok (preSave a)"
  by (simp add: area_ok_def preSave_def dims_ok_calcArea list_all_iff)

lemma calcArea_absent: "length_dim d = None \<or> width d = None \<Longrightarrow> calcArea d = d"
  by (auto simp: calcArea_def truthy_def)

lemma save_cases:
  "save v ok a D = (e, a', D') \<Longrightarrow>
     (e \<noteq> None \<and> D' = D)
     \<or> (e = None \<and> a' = preSave a \<and> D (aid a) \<noteq> None \<and> D' = D(aid a \<mapsto> preSave a))"
  by (auto simp: save_def Let_def split: if_splits)

lemma save_mem: "save v ok x D = (e, a', D') \<Longrightarrow> a' = x \<or> a' = preSave x"
  by (auto simp: save_def Let_def split: if_splits)

lemma insert_cases:
  "insert_doc ok a D = (e, a', D') \<Longrightarrow>
     (e \<noteq> None \<and> D' = D)
     \<or> (e = None \<and> a' = preSave a \<and> D (aid a) = None \<and> valid a
          \<and> D' = D(aid a \<mapsto> preSave a))"
  by (auto simp: insert_doc_def Let_def split: if_splits)

lemma get_calls_save:
  "get_by_id D c i ok = (r, D') \<Longrightarrow>
     D' = D \<or> (\<exists>a e x. D i = Some a \<and> save False ok (a\<lparr>views := views a + 1\<rparr>) D = (e, x, D'))"
  by (auto simp: get_by_id_def get_found_def incrementViews_def findById_def Let_def
      split: option.splits if_splits prod.splits)

lemma update_calls_save:
  "update_analysis D c i b ok = (r, D') \<Longrightarrow>
     D' = D \<or> (\<exists>a e x. D i = Some a \<and> save True ok (apply_update b a) D = (e, x, D'))"
  by (auto simp: update_analysis_def findById_def
      split: sum.splits option.splits if_splits prod.splits)

lemma like_calls_save:
  "like_analysis D c i ok = (r, D') \<Longrightarrow>
     D' = D \<or> (\<exists>a e x. D i = Some a \<and> save False ok (a\<lparr>likes := likes a + 1\<rparr>) D = (e, x, D'))"
  by (auto simp: like_analysis_def like_found_def like_def findById_def
      split: sum.splits option.splits if_splits prod.splits)

lemma share_calls_save:
  "share_analysis D c i ok = (r, D') \<Longrightarrow>
     D' = D \<or> (\<exists>a e x. D i = Some a \<and> save False ok (a\<lparr>shares := shares a + 1\<rparr>) D = (e, x, D'))"
  by (auto simp: share_analysis_def share_found_def share_def findById_def
      split: sum.splits option.splits if_splits prod.splits)

lemma start_calls_save:
  "start_analysis D c i now ok = (r, D', t) \<Longrightarrow>
     (D' = D \<and> t = None)
     \<or> (\<exists>a e x. D i = Some a \<and> status a = Pending
           \<and> save True ok (set_status Processing now a) D = (e, x, D')
           \<and> (t = None \<and> e \<noteq> None \<or> t = Some x \<and> e = None))"
  by (auto simp: start_analysis_def start_found_def updateStatus_def findById_def
      split: sum.splits option.splits if_splits prod.splits)

lemma create_calls_insert:
  "create_analysis D c b n ok = (r, D') \<Longrightarrow>
     D' = D \<or> (\<exists>u e x. insert_doc ok (new_analysis n u b) D = (e, x, D'))"
  by (auto simp: create_analysis_def split: sum.splits option.splits if_splits prod.splits)

lemma upload_calls_insert:
  "analyses (upload_files D B c limited fs b today n ok destroyOk) = D
     \<or> (\<exists>u up e x. insert_doc ok (uploaded_analysis n u b today up) D
            = (e, x, analyses (upload_files D B c limited fs b today n ok destroyOk)))"
  by (auto simp: upload_files_def Let_def
      split: sum.splits option.splits if_splits prod.splits bool.splits)

lemma delete_effect:
  "delete_analysis D c i ok = (r, D') \<Longrightarrow> D' = D \<or> D' = D(i := None)"
  by (auto simp: delete_analysis_def split: sum.splits option.splits if_splits prod.splits)

subsection \<open>Every write recomputes the areas\<close>

lemma writes_ok_refl: "writes_ok D D"
  by (simp add: writes_ok_def)

lemma writes_ok_trans: "writes_ok D D1 \<Longrightarrow> writes_ok D1 D2 \<Longrightarrow> writes_ok D D2"
  unfolding writes_ok_def by metis

lemma writes_ok_save: "save v ok a D = (e, a', D') \<Longrightarrow> writes_ok D D'"
  by (auto dest!: save_cases simp: writes_ok_def area_ok_preSave split: if_splits)

lemma writes_ok_insert: "insert_doc ok a D = (e, a', D') \<Longrightarrow> writes_ok D D'"
  by (auto dest!: insert_cases simp: writes_ok_def area_ok_preSave split: if_splits)

lemma writes_get: "get_by_id D c i ok = (r, D') \<Longrightarrow> writes_ok D D'"
  by (drule get_calls_save) (auto simp: writes_ok_refl dest: writes_ok_save)

lemma writes_create: "create_analysis D c b n ok = (r, D') \<Longrightarrow> writes_ok D D'"
  by (drule create_calls_insert) (auto simp: writes_ok_refl dest: writes_ok_insert)

lemma writes_upload:
  "writes_ok D (analyses (upload_files D B c limited fs b today n ok destroyOk))"
  using upload_calls_insert[of D B c limited fs b today n ok destroyOk]
  by (auto simp: writes_ok_refl dest: writes_ok_insert)

lemma writes_update: "update_analysis D c i b ok = (r, D') \<Longrightarrow> writes_ok D D'"
  by (drule update_calls_save) (auto simp: writes_ok_refl dest: writes_ok_save)

lemma writes_delete: "delete_analysis D c i ok = (r, D') \<Longrightarrow> writes_ok D D'"
  by (drule delete_effect) (auto simp: writes_ok_def split: if_splits)

lemma writes_like: "like_analysis D c i ok = (r, D') \<Longrightarrow> writes_ok D D'"
  by (drule like_calls_save) (auto simp: writes_ok_refl dest: writes_ok_save)

lemma writes_share: "share_analysis D c i ok = (r, D') \<Longrightarrow> writes_ok D D'"
  by (drule share_calls_save) (auto simp: writes_ok_refl dest: writes_ok_save)

lemma writes_start: "start_analysis D c i now ok = (r, D', t) \<Longrightarrow> writes_ok D D'"
  by (drule start_calls_save) (auto simp: writes_ok_refl dest: writes_ok_save)

lemma writes_callback:
  assumes "processing_callback a r1 r2 t1 ok1 t2 ok2 D = (e, a', D')"
  shows "writes_ok D D'"
proof -
  let ?x = "set_status Completed t1 (a\<lparr>vastuAnalysis := mockResults r1 r2\<rparr>)"
  obtain e1 a1 D1 where s1: "save True ok1 ?x D = (e1, a1, D1)"
    by (metis prod_cases3)
  show ?thesis
  proof (cases e1)
    case None
    with assms s1 have "D' = D1"
      by (simp add: processing_callback_def updateStatus_def)
    with writes_ok_save[OF s1] show ?thesis by simp
  next
    case (Some ex)
    with assms s1 have "save True ok2 (set_status Failed t2 a1) D1 = (e, a', D')"
      by (simp add: processing_callback_def updateStatus_def)
    from writes_ok_trans[OF writes_ok_save[OF s1] writes_ok_save[OF this]] show ?thesis .
  qed
qed

lemma step_writes_ok: "step s s' \<Longrightarrow> writes_ok (store s) (store s')"
proof (induction rule: step.induct)
  case (Create newId s c b ok r D')
  then show ?case by (simp add: writes_create)
next
  case (Upload newId s B c limited fs ub today ok destroyOk res)
  then show ?case using writes_upload[of "store s" B c limited fs ub today newId ok destroyOk] by auto
next
  case (Get s c i ok r D')
  then show ?case by (simp add: writes_get)
next
  case (Update s c i b ok r D')
  then show ?case by (simp add: writes_update)
next
  case (Delete s c i ok ru D')
  then show ?case by (simp add: writes_delete)
next
  case (Like s c i ok rn D')
  then show ?case by (simp add: writes_like)
next
  case (Share s c i ok rn D')
  then show ?case by (simp add: writes_share)
next
  case (Start s c i now ok r D' t)
  then show ?case by (simp add: writes_start)
next
  case (Fire a s r1 r2 t1 ok1 t2 ok2 e a' D')
  then show ?case by (simp add: writes_callback)
qed

subsection \<open>The shape of each change\<close>

lemma upd_at_refl: "upd_at D D k R"
  by (simp add: upd_at_def)

lemma save_upd:
  assumes "save v ok x D = (e, a', D')"
    and "\<And>d. D (aid x) = Some d \<Longrightarrow> R (status d) (status x)"
  shows "upd_at D D' (aid x) R"
proof -
  from save_cases[OF assms(1)] show ?thesis
  proof
    assume "e \<noteq> None \<and> D' = D"
    then show ?thesis by (simp add: upd_at_def)
  next
    assume h: "e = None \<and> a' = preSave x \<and> D (aid x) \<noteq> None \<and> D' = D(aid x \<mapsto> preSave x)"
    then obtain d where d: "D (aid x) = Some d" by blast
    from assms(2)[OF d] h d show ?thesis
      unfolding upd_at_def by (intro disjI2 exI[of _ d] exI[of _ "preSave x"]) simp
  qed
qed

lemma save_same:
  assumes "save v ok x D = (e, a', D')" "D i = Some a" "keyed D" "aid x = aid a"
    "status x = status a"
  shows "upd_at D D' i (=)"
proof -
  have i: "aid a = i" using assms(2,3) by (simp add: keyed_def)
  have "upd_at D D' (aid x) (=)"
    by (rule save_upd[OF assms(1)]) (use assms i in simp)
  then show ?thesis using assms(4) i by simp
qed

lemma get_upd: "get_by_id D c i ok = (r, D') \<Longrightarrow> keyed D \<Longrightarrow> upd_at D D' i (=)"
  by (drule get_calls_save) (auto simp: upd_at_refl elim!: save_same)

lemma update_upd: "update_analysis D c i b ok = (r, D') \<Longrightarrow> keyed D \<Longrightarrow> upd_at D D' i (=)"
  by (drule update_calls_save) (auto simp: upd_at_refl elim!: save_same)

lemma like_upd: "like_analysis D c i ok = (r, D') \<Longrightarrow> keyed D \<Longrightarrow> upd_at D D' i (=)"
  by (drule like_calls_save) (auto simp: upd_at_refl elim!: save_same)

lemma share_upd: "share_analysis D c i ok = (r, D') \<Longrightarrow> keyed D \<Longrightarrow> upd_at D D' i (=)"
  by (drule share_calls_save) (auto simp: upd_at_refl elim!: save_same)

lemma start_effect:
  "start_analysis D c i now ok = (r, D', t) \<Longrightarrow> keyed D \<Longrightarrow>
     (D' = D \<and> t = None)
     \<or> (\<exists>d d'. D i = Some d \<and> status d = Pending \<and> D' = D(i \<mapsto> d') \<and> aid d' = i
            \<and> status d' = Processing \<and> t = Some d')"
  by (auto dest!: start_calls_save simp: keyed_def dest!: save_cases)

lemma create_effect:
  "create_analysis D c b n ok = (r, D') \<Longrightarrow>
     D' = D \<or> (\<exists>d'. D n = None \<and> D' = D(n \<mapsto> d') \<and> aid d' = n \<and> status d' = Pending)"
  by (auto dest!: create_calls_insert insert_cases simp: new_analysis_def)

lemma upload_effect:
  "upload_files D B c limited fs b today n ok destroyOk = res \<Longrightarrow>
     analyses res = D
     \<or> (\<exists>d'. D n = None \<and> analyses res = D(n \<mapsto> d') \<and> aid d' = n \<and> status d' = Pending)"
  using upload_calls_insert[of D B c limited fs b today n ok destroyOk]
  by (auto dest!: insert_cases simp: uploaded_analysis_def)

lemma callback_effect:
  assumes "processing_callback a r1 r2 t1 ok1 t2 ok2 D = (e, a', D')"
  shows "upd_at D D' (aid a) (\<lambda>p q. q = Completed \<or> q = Failed)"
proof -
  let ?x = "set_status Completed t1 (a\<lparr>vastuAnalysis := mockResults r1 r2\<rparr>)"
  obtain e1 a1 D1 where s1: "save True ok1 ?x D = (e1, a1, D1)"
    by (metis prod_cases3)
  have u1: "upd_at D D1 (aid a) (\<lambda>p q. q = Completed \<or> q = Failed)"
    using save_upd[OF s1, of "\<lambda>p q. q = Completed \<or> q = Failed"] by simp
  show ?thesis
  proof (cases e1)
    case None
    with assms s1 have "D' = D1"
      by (simp add: processing_callback_def updateStatus_def)
    with u1 show ?thesis by simp
  next
    case (Some ex)
    from save_cases[OF s1] Some have D1: "D1 = D" by auto
    from save_mem[OF s1] have aid1: "aid a1 = aid a" by auto
    from assms s1 Some D1 have s2: "save True ok2 (set_status Failed t2 a1) D = (e, a', D')"
      by (simp add: processing_callback_def updateStatus_def)
    show ?thesis
      using save_upd[OF s2, of "\<lambda>p q. q = Completed \<or> q = Failed"] aid1 by simp
  qed
qed

lemma start_rejected:
  "D i = Some a \<Longrightarrow> status a \<noteq> Pending \<Longrightarrow> start_analysis D c i now ok = (r, D', t)
   \<Longrightarrow> D' = D \<and> t = None \<and> (\<exists>code msg. r = Reject code msg)"
  by (auto simp: start_analysis_def start_found_def findById_def
      split: sum.splits option.splits if_splits prod.splits)

section \<open>The invariant of the service\<close>

lemma sys_invI:
  assumes "\<And>i d. store s i = Some d \<Longrightarrow> aid d = i \<and> i \<in> set (issued s)"
    and "\<And>a. a \<in> set (timers s) \<Longrightarrow> aid a \<in> set (issued s) \<and> status a = Processing"
    and "\<And>a d. a \<in> set (timers s) \<Longrightarrow> store s (aid a) = Some d \<Longrightarrow> status d = Processing"
    and "distinct (map aid (timers s))"
  shows "sys_inv s"
  using assms unfolding sys_inv_def by blast

lemma inv_stored: "sys_inv s \<Longrightarrow> store s i = Some d \<Longrightarrow> aid d = i \<and> i \<in> set (issued s)"
  unfolding sys_inv_def by blast

lemma inv_timer: "sys_inv s \<Longrightarrow> a \<in> set (timers s) \<Longrightarrow> aid a \<in> set (issued s) \<and> status a = Processing"
  unfolding sys_inv_def by blast

lemma inv_timer_stored:
  "sys_inv s \<Longrightarrow> a \<in> set (timers s) \<Longrightarrow> store s (aid a) = Some d \<Longrightarrow> status d = Processing"
  unfolding sys_inv_def by blast

lemma inv_distinct: "sys_inv s \<Longrightarrow> distinct (map aid (timers s))"
  unfolding sys_inv_def by blast

lemma inv_keyed: "sys_inv s \<Longrightarrow> keyed (store s)"
  unfolding keyed_def using inv_stored by blast

lemma inv_put:
  assumes s: "sys_inv s" and d: "store s i = Some d" and d': "aid d' = i" "status d' = status d"
  shows "sys_inv (s\<lparr>store := (store s)(i \<mapsto> d')\<rparr>)"
proof (rule sys_invI)
  fix j x assume "store (s\<lparr>store := (store s)(i \<mapsto> d')\<rparr>) j = Some x"
  then have "(j = i \<and> x = d') \<or> store s j = Some x" by (simp split: if_splits)
  then show "aid x = j \<and> j \<in> set (issued (s\<lparr>store := (store s)(i \<mapsto> d')\<rparr>))"
    using inv_stored[OF s d] inv_stored[OF s, of j x] d' by auto
next
  fix a assume "a \<in> set (timers (s\<lparr>store := (store s)(i \<mapsto> d')\<rparr>))"
  then show "aid a \<in> set (issued (s\<lparr>store := (store s)(i \<mapsto> d')\<rparr>)) \<and> status a = Processing"
    using inv_timer[OF s, of a] by simp
next
  fix a x assume a: "a \<in> set (timers (s\<lparr>store := (store s)(i \<mapsto> d')\<rparr>))"
    and x: "store (s\<lparr>store := (store s)(i \<mapsto> d')\<rparr>) (aid a) = Some x"
  from a have a': "a \<in> set (timers s)" by simp
  from x have "(aid a = i \<and> x = d') \<or> store s (aid a) = Some x" by (simp split: if_splits)
  then show "status x = Processing"
  proof
    assume h: "aid a = i \<and> x = d'"
    with d have "store s (aid a) = Some d" by simp
    from inv_timer_stored[OF s a' this] h d' show ?thesis by simp
  next
    assume "store s (aid a) = Some x"
    from inv_timer_stored[OF s a' this] show ?thesis .
  qed
next
  show "distinct (map aid (timers (s\<lparr>store := (store s)(i \<mapsto> d')\<rparr>)))"
    using inv_distinct[OF s] by simp
qed

lemma inv_upd_same:
  assumes "sys_inv s" "upd_at (store s) D' i (=)"
  shows "sys_inv (s\<lparr>store := D'\<rparr>)"
proof -
  from assms(2) consider "D' = store s"
    | d d' where "store s i = Some d" "D' = (store s)(i \<mapsto> d')" "aid d' = i" "status d = status d'"
    unfolding upd_at_def by blast
  then show ?thesis
  proof cases
    case 1
    then show ?thesis using assms(1) by simp
  next
    case 2
    then show ?thesis using inv_put[OF assms(1) 2(1), of d'] by simp
  qed
qed

lemma inv_delete:
  assumes s: "sys_inv s"
  shows "sys_inv (s\<lparr>store := (store s)(i := None)\<rparr>)"
proof (rule sys_invI)
  fix j x assume "store (s\<lparr>store := (store s)(i := None)\<rparr>) j = Some x"
  then have "store s j = Some x" by (simp split: if_splits)
  then show "aid x = j \<and> j \<in> set (issued (s\<lparr>store := (store s)(i := None)\<rparr>))"
    using inv_stored[OF s, of j x] by simp
next
  fix a assume "a \<in> set (timers (s\<lparr>store := (store s)(i := None)\<rparr>))"
  then show "aid a \<in> set (issued (s\<lparr>store := (store s)(i := None)\<rparr>)) \<and> status a = Processing"
    using inv_timer[OF s, of a] by simp
next
  fix a x assume a: "a \<in> set (timers (s\<lparr>store := (store s)(i := None)\<rparr>))"
    and x: "store (s\<lparr>store := (store s)(i := None)\<rparr>) (aid a) = Some x"
  from x have "store s (aid a) = Some x" by (simp split: if_splits)
  with a show "status x = Processing" using inv_timer_stored[OF s, of a x] by simp
next
  show "distinct (map aid (timers (s\<lparr>store := (store s)(i := None)\<rparr>)))"
    using inv_distinct[OF s] by simp
qed

lemma inv_issue:
  assumes s: "sys_inv s"
  shows "sys_inv (s\<lparr>store := store s, issued := n # issued s\<rparr>)"
proof (rule sys_invI)
  fix j x assume "store (s\<lparr>store := store s, issued := n # issued s\<rparr>) j = Some x"
  then show "aid x = j \<and> j \<in> set (issued (s\<lparr>store := store s, issued := n # issued s\<rparr>))"
    using inv_stored[OF s, of j x] by simp
next
  fix a assume "a \<in> set (timers (s\<lparr>store := store s, issued := n # issued s\<rparr>))"
  then show "aid a \<in> set (issued (s\<lparr>store := store s, issued := n # issued s\<rparr>)) \<and> status a = Processing"
    using inv_timer[OF s, of a] by simp
next
  fix a x assume "a \<in> set (timers (s\<lparr>store := store s, issued := n # issued s\<rparr>))"
    "store (s\<lparr>store := store s, issued := n # issued s\<rparr>) (aid a) = Some x"
  then show "status x = Processing" using inv_timer_stored[OF s, of a x] by simp
next
  show "distinct (map aid (timers (s\<lparr>store := store s, issued := n # issued s\<rparr>)))"
    using inv_distinct[OF s] by simp
qed

lemma inv_create:
  assumes s: "sys_inv s" and n: "n \<notin> set (issued s)" and d': "aid d' = n"
  shows "sys_inv (s\<lparr>store := (store s)(n \<mapsto> d'), issued := n # issued s\<rparr>)"
    (is "sys_inv ?s'")
proof (rule sys_invI)
  fix j x assume "store ?s' j = Some x"
  then have "(j = n \<and> x = d') \<or> store s j = Some x" by (simp split: if_splits)
  then show "aid x = j \<and> j \<in> set (issued ?s')"
    using inv_stored[OF s, of j x] d' by auto
next
  fix a assume "a \<in> set (timers ?s')"
  then show "aid a \<in> set (issued ?s') \<and> status a = Processing"
    using inv_timer[OF s, of a] by simp
next
  fix a x assume a: "a \<in> set (timers ?s')" and x: "store ?s' (aid a) = Some x"
  from a have a': "a \<in> set (timers s)" by simp
  from inv_timer[OF s a'] n have "aid a \<noteq> n" by auto
  with x have "store s (aid a) = Some x" by simp
  from inv_timer_stored[OF s a' this] show "status x = Processing" .
next
  show "distinct (map aid (timers ?s'))" using inv_distinct[OF s] by simp
qed

lemma inv_start:
  assumes s: "sys_inv s" and d: "store s i = Some d" "status d = Pending"
    and d': "aid d' = i" "status d' = Processing"
  shows "sys_inv (s\<lparr>store := (store s)(i \<mapsto> d'), timers := [d'] @ timers s\<rparr>)"
    (is "sys_inv ?s'")
proof -
  have fresh: "aid a \<noteq> i" if "a \<in> set (timers s)" for a
  proof
    assume "aid a = i"
    with d(1) have "store s (aid a) = Some d" by simp
    from inv_timer_stored[OF s that this] d(2) show False by simp
  qed
  show ?thesis
  proof (rule sys_invI)
    fix j x assume "store ?s' j = Some x"
    then have "(j = i \<and> x = d') \<or> store s j = Some x" by (simp split: if_splits)
    then show "aid x = j \<and> j \<in> set (issued ?s')"
      using inv_stored[OF s d(1)] inv_stored[OF s, of j x] d' by auto
  next
    fix a assume "a \<in> set (timers ?s')"
    then have "a = d' \<or> a \<in> set (timers s)" by simp
    then show "aid a \<in> set (issued ?s') \<and> status a = Processing"
      using inv_timer[OF s, of a] inv_stored[OF s d(1)] d' by auto
  next
    fix a x assume a: "a \<in> set (timers ?s')" and x: "store ?s' (aid a) = Some x"
    from a have "a = d' \<or> a \<in> set (timers s)" by simp
    then show "status x = Processing"
    proof
      assume "a = d'"
      with x d' show ?thesis by simp
    next
      assume a': "a \<in> set (timers s)"
      with fresh x have "store s (aid a) = Some x" by simp
      from inv_timer_stored[OF s a' this] show ?thesis .
    qed
  next
    have "i \<notin> aid ` set (timers s)" using fresh by blast
    then show "distinct (map aid (timers ?s'))" using inv_distinct[OF s] d' by simp
  qed
qed

lemma distinct_map_remove1: "distinct (map f xs) \<Longrightarrow> distinct (map f (remove1 x xs))"
proof (induction xs)
  case Nil
  then show ?case by simp
next
  case (Cons y ys)
  have "f y \<notin> f ` set (remove1 x ys)"
    using Cons.prems set_remove1_subset[of x ys] by auto
  with Cons show ?case by auto
qed

lemma remove1_other_key:
  "distinct (map f xs) \<Longrightarrow> a \<in> set xs \<Longrightarrow> x \<in> set (remove1 a xs) \<Longrightarrow> f x \<noteq> f a"
proof (induction xs)
  case Nil
  then show ?case by simp
next
  case (Cons y ys)
  show ?case
  proof (cases "a = y")
    case True
    with Cons.prems show ?thesis by (auto simp: image_iff)
  next
    case False
    with Cons.prems have a: "a \<in> set ys" by simp
    from Cons.prems False have "x = y \<or> x \<in> set (remove1 a ys)" by simp
    then show ?thesis
    proof
      assume "x = y"
      with Cons.prems a show ?thesis by (auto simp: image_iff)
    next
      assume "x \<in> set (remove1 a ys)"
      with Cons.IH Cons.prems a show ?thesis by simp
    qed
  qed
qed

lemma inv_drop_timer:
  assumes s: "sys_inv s" and a: "a \<in> set (timers s)"
  shows "sys_inv (s\<lparr>timers := remove1 a (timers s)\<rparr>)" (is "sys_inv ?s'")
proof (rule sys_invI)
  fix j x assume "store ?s' j = Some x"
  then show "aid x = j \<and> j \<in> set (issued ?s')" using inv_stored[OF s, of j x] by simp
next
  fix b assume "b \<in> set (timers ?s')"
  then have "b \<in> set (timers s)" using set_remove1_subset[of a "timers s"] by auto
  then show "aid b \<in> set (issued ?s') \<and> status b = Processing" using inv_timer[OF s, of b] by simp
next
  fix b x assume "b \<in> set (timers ?s')" and x: "store ?s' (aid b) = Some x"
  then have "b \<in> set (timers s)" using set_remove1_subset[of a "timers s"] by auto
  then show "status x = Processing" using inv_timer_stored[OF s, of b x] x by simp
next
  show "distinct (map aid (timers ?s'))" using distinct_map_remove1[OF inv_distinct[OF s]] by simp
qed

lemma inv_finish:
  assumes s: "sys_inv s" and a: "a \<in> set (timers s)" and d': "aid d' = aid a"
  shows "sys_inv (s\<lparr>store := (store s)(aid a \<mapsto> d'), timers := remove1 a (timers s)\<rparr>)"
    (is "sys_inv ?s'")
proof (rule sys_invI)
  fix j x assume "store ?s' j = Some x"
  then have "(j = aid a \<and> x = d') \<or> store s j = Some x" by (simp split: if_splits)
  then show "aid x = j \<and> j \<in> set (issued ?s')"
    using inv_timer[OF s a] inv_stored[OF s, of j x] d' by auto
next
  fix b assume "b \<in> set (timers ?s')"
  then have "b \<in> set (timers s)" using set_remove1_subset[of a "timers s"] by auto
  then show "aid b \<in> set (issued ?s') \<and> status b = Processing" using inv_timer[OF s, of b] by simp
next
  fix b x assume b: "b \<in> set (timers ?s')" and x: "store ?s' (aid b) = Some x"
  from b have b': "b \<in> set (remove1 a (timers s))" by simp
  then have bt: "b \<in> set (timers s)" using set_remove1_subset[of a "timers s"] by auto
  from remove1_other_key[OF inv_distinct[OF s] a b'] have "aid b \<noteq> aid a" .
  with x have "store s (aid b) = Some x" by simp
  from inv_timer_stored[OF s bt this] show "status x = Processing" .
next
  show "distinct (map aid (timers ?s'))" using distinct_map_remove1[OF inv_distinct[OF s]] by simp
qed

lemma inv_fire:
  assumes s: "sys_inv s" and a: "a \<in> set (timers s)"
    and u: "upd_at (store s) D' (aid a) R"
  shows "sys_inv (s\<lparr>store := D', timers := remove1 a (timers s)\<rparr>)"
proof -
  from u consider "D' = store s"
    | d' where "D' = (store s)(aid a \<mapsto> d')" "aid d' = aid a"
    unfolding upd_at_def by blast
  then show ?thesis
  proof cases
    case 1
    then show ?thesis using inv_drop_timer[OF s a] by simp
  next
    case 2
    then show ?thesis using inv_finish[OF s a 2(2)] by simp
  qed
qed

lemma step_inv: "step s s' \<Longrightarrow> sys_inv s \<Longrightarrow> sys_inv s'"
proof (induction rule: step.induct)
  case (Create newId s c b ok r D')
  from create_effect[OF Create(2)] show ?case
    using inv_create[OF Create(3) Create(1)] inv_issue[OF Create(3), of newId] by auto
next
  case (Upload newId s B c limited fs ub today ok destroyOk res)
  from upload_effect[OF Upload(2)] show ?case
    using inv_create[OF Upload(3) Upload(1)] inv_issue[OF Upload(3), of newId] by auto
next
  case (Get s c i ok r D')
  show ?case by (rule inv_upd_same[OF Get(2) get_upd[OF Get(1) inv_keyed[OF Get(2)]]])
next
  case (Update s c i b ok r D')
  show ?case by (rule inv_upd_same[OF Update(2) update_upd[OF Update(1) inv_keyed[OF Update(2)]]])
next
  case (Delete s c i ok ru D')
  from delete_effect[OF Delete(1)] Delete(2) show ?case using inv_delete[of s i] by auto
next
  case (Like s c i ok rn D')
  show ?case by (rule inv_upd_same[OF Like(2) like_upd[OF Like(1) inv_keyed[OF Like(2)]]])
next
  case (Share s c i ok rn D')
  show ?case by (rule inv_upd_same[OF Share(2) share_upd[OF Share(1) inv_keyed[OF Share(2)]]])
next
  case (Start s c i now ok r D' t)
  from start_effect[OF Start(1) inv_keyed[OF Start(2)]] show ?case
    using Start(2) inv_start[OF Start(2)] by auto
next
  case (Fire a s r1 r2 t1 ok1 t2 ok2 e a' D')
  from inv_fire[OF Fire(3) Fire(1) callback_effect[OF Fire(2)]] show ?case .
qed

lemma inv_init: "sys_inv init" by (simp add: sys_inv_def init_def)

lemma reachable_inv: "reachable s \<Longrightarrow> sys_inv s"
  by (induction rule: reachable.induct) (auto intro: inv_init step_inv)


lemma upd_eq_edges: "upd_at D D' k (=) \<Longrightarrow> D i = Some d \<Longrightarrow> D' i = Some d' \<Longrightarrow> status d' = status d"
  unfolding upd_at_def by (auto split: if_splits)

lemma step_edges:
  assumes "step s s'" "sys_inv s" "store s i = Some d" "store s' i = Some d'"
  shows "status d' = status d \<or> edge (status d) (status d')"
  using assms
proof (induction rule: step.induct)
  case (Create newId s c b ok r D')
  from create_effect[OF Create(2)] Create(4,5) show ?case by (auto split: if_splits)
next
  case (Upload newId s B c limited fs ub today ok destroyOk res)
  from upload_effect[OF Upload(2)] Upload(4,5) show ?case by (auto split: if_splits)
next
  case (Get s c i0 ok r D')
  from upd_eq_edges[OF get_upd[OF Get(1) inv_keyed[OF Get(2)]]] Get(3,4) show ?case by simp
next
  case (Update s c i0 b ok r D')
  from upd_eq_edges[OF update_upd[OF Update(1) inv_keyed[OF Update(2)]]] Update(3,4) show ?case by simp
next
  case (Delete s c i0 ok ru D')
  from delete_effect[OF Delete(1)] Delete(3,4) show ?case by (auto split: if_splits)
next
  case (Like s c i0 ok rn D')
  from upd_eq_edges[OF like_upd[OF Like(1) inv_keyed[OF Like(2)]]] Like(3,4) show ?case by simp
next
  case (Share s c i0 ok rn D')
  from upd_eq_edges[OF share_upd[OF Share(1) inv_keyed[OF Share(2)]]] Share(3,4) show ?case by simp
next
  case (Start s c i0 now ok r D' t)
  from start_effect[OF Start(1) inv_keyed[OF Start(2)]] Start(3,4) show ?case
    by (auto simp: edge_def split: if_splits)
next
  case (Fire a s r1 r2 t1 ok1 t2 ok2 e a' D')
  from Fire(3,1) have p: "\<And>d. store s (aid a) = Some d \<Longrightarrow> status d = Processing"
    unfolding sys_inv_def by blast
  from callback_effect[OF Fire(2)] Fire(4,5) p show ?case
    unfolding upd_at_def by (auto simp: edge_def split: if_splits)
qed

section \<open>Evaluating the examples\<close>

lemma isMongoId_oid1: "isMongoId oid1"
  by (simp add: isMongoId_def oid1_def)

lemma trim_my_home: "trim ''My Home'' = ''My Home''"
  by (simp add: trim_def is_space_def)

lemma home_eq:
  "home p pub =
     \<lparr>aid = oid1, user = uid p, title = ''My Home'', description = None, files = [],
      floorPlan = \<lparr>dimensions = \<lparr>length_dim = Some 10, width = Some 12, area = Some 120,
                                 unit_dim = Sqft\<rparr>,
                   orientation = Some North,
                   rooms = [\<lparr>name = ''Kitchen'', rtype = Some Kitchen, position = None,
                             rdimensions = \<lparr>length_dim = Some 4, width = Some 3,
                                            area = Some 12\<rparr>,
                             direction = Some (Dir Southeast)\<rparr>]\<rparr>,
      vastuAnalysis = default_vastu, status = Pending, processingStartedAt = None,
      completedAt = None, processingTime = None, isPublic = pub, tags = [], views = 0,
      likes = 0, shares = 0\<rparr>"
  by (simp add: home_def new_analysis_def body1_def plan1_def kitchen_def preSave_def
      calcArea_def truthy_def trim_my_home)

lemma preSave_home: "preSave (home p pub) = home p pub"
  by (simp add: home_eq preSave_def calcArea_def truthy_def)

lemma valid_home: "uid p \<noteq> [] \<Longrightarrow> valid (home p pub)"
  by (simp add: home_eq valid_def valid_room_def valid_vastu_def default_vastu_def)

lemma protect_alice: "protect (Resolved alice) = Inr alice"
  by (simp add: protect_def alice_def)

lemma aid_home: "aid (home p pub) = oid1"
  by (simp add: home_eq)

lemma created_home:
  "create_analysis Map.empty (Resolved alice) (body1 plan1) oid1 True
     = (Accept 201 ''Analysis created successfully'' (home alice False), db1 alice False)"
proof -
  have v: "valid (new_analysis oid1 (uid alice) (body1 plan1))"
    by (simp add: new_analysis_def body1_def plan1_def kitchen_def valid_def valid_room_def
        valid_vastu_def default_vastu_def trim_my_home alice_def)
  have h: "preSave (new_analysis oid1 (uid alice) (body1 plan1)) = home alice False"
    by (simp add: home_def new_analysis_def body1_def preSave_def)
  have va: "validateAnalysis (body1 plan1)"
    by (simp add: validateAnalysis_def body1_def plan1_def at_least_one_def trim_my_home)
  show ?thesis
    using v h va
    by (simp add: create_analysis_def protect_alice insert_doc_def Let_def db1_def aid_home)
qed

lemma started_eq:
  "started = (Accept 200 ''Analysis processing started''
               ((home alice False)\<lparr>status := Processing, processingStartedAt := Some 1000\<rparr>),
              [oid1 \<mapsto> (home alice False)\<lparr>status := Processing, processingStartedAt := Some 1000\<rparr>],
              Some ((home alice False)\<lparr>status := Processing, processingStartedAt := Some 1000\<rparr>))"
proof -
  have p: "preSave ((home alice False)\<lparr>status := Processing, processingStartedAt := Some 1000\<rparr>)
            = (home alice False)\<lparr>status := Processing, processingStartedAt := Some 1000\<rparr>"
    by (simp add: home_eq preSave_def calcArea_def truthy_def)
  have v: "valid ((home alice False)\<lparr>status := Processing, processingStartedAt := Some 1000\<rparr>)"
    using valid_home[of alice False] by (simp add: valid_def alice_def)
  have a: "aid (home alice False) = oid1" "user (home alice False) = uid alice"
    "status (home alice False) = Pending"
    by (simp_all add: home_eq)
  show ?thesis
    unfolding started_def
    using p v a isMongoId_oid1
    by (simp add: start_analysis_def start_found_def protect_def requirePremium_def
        validateObjectId_def findById_def db1_def updateStatus_def set_status_def save_def
        Let_def alice_def)
qed

lemma reachable_s1: "reachable s1"
proof -
  have c: "create_analysis (store init) (Resolved alice) (body1 plan1) oid1 True
             = (Accept 201 ''Analysis created successfully'' (home alice False),
                db1 alice False)"
    using created_home by (simp add: init_def)
  have "oid1 \<notin> set (issued init)" by (simp add: init_def)
  from step.Create[OF this c] have "step init s1" by (simp add: init_def s1_def)
  with reachable_init show ?thesis by (rule reachable_step)
qed

lemma step_s1_s2: "step s1 s2"
proof -
  have "start_analysis (store s1) (Resolved alice) oid1 1000 True
          = (fst started, fst (snd started), snd (snd started))"
    by (simp add: s1_def started_def)
  from step.Start[OF this] show ?thesis
    by (simp add: s1_def s2_def started_eq)
qed

section \<open>The life cycle\<close>

text \<open>
  C1, as the code has it. The status of an analysis is one of pending, processing,
  completed and failed. When the runs of the handlers and of the callbacks do not
  overlap (each goes to its end before the next begins), in every state that the
  service can reach a run (of a handler, or of the callback that start leaves behind)
  leaves the stored status of an analysis as it is or moves it along pending to
  processing, processing to completed or processing to failed; and a start that finds
  an analysis that is not pending is rejected: the collection is unchanged and no
  callback is scheduled. (The method \<open>updateStatus\<close> checks nothing itself; the
  guard is the test of the start handler on the document it has read, and nothing
  ties this read to the later save.)
\<close>

theorem status_moves_along_edges:
  "(reachable s \<and> step s s' \<and> store s i = Some d \<and> store s' i = Some d'
      \<longrightarrow> status d' \<in> {Pending, Processing, Completed, Failed}
          \<and> (status d' = status d \<or> edge (status d) (status d')))
   \<and> (D j = Some a \<and> status a \<noteq> Pending \<and> start_analysis D c j now ok = (r, D', t)
      \<longrightarrow> D' = D \<and> t = None \<and> (\<exists>code msg. r = Reject code msg))"
proof (intro conjI impI)
  assume h: "reachable s \<and> step s s' \<and> store s i = Some d \<and> store s' i = Some d'"
  show "status d' \<in> {Pending, Processing, Completed, Failed}"
    by (cases "status d'") simp_all
  from h step_edges[of s s' i d d'] reachable_inv[of s]
  show "status d' = status d \<or> edge (status d) (status d')" by blast
next
  assume "D j = Some a \<and> status a \<noteq> Pending \<and> start_analysis D c j now ok = (r, D', t)"
  then show "D' = D" and "t = None" and "\<exists>code msg. r = Reject code msg"
    using start_rejected[of D j a c now ok r D' t] by blast+
qed

theorem status_moves_along_edges_witness:
  "reachable s1 \<and> step s1 s2 \<and> store s1 oid1 = Some (home alice False)
   \<and> store s2 oid1 = Some ((home alice False)\<lparr>status := Processing, processingStartedAt := Some 1000\<rparr>)
   \<and> edge Pending Processing
   \<and> start_analysis (store s2) (Resolved alice) oid1 2000 True
       = (Reject 400 ''Analysis is already being processed or completed'', store s2, None)"
proof -
  let ?d' = "(home alice False)\<lparr>status := Processing, processingStartedAt := Some 1000\<rparr>"
  have a: "store s1 oid1 = Some (home alice False)" by (simp add: s1_def db1_def)
  have b: "store s2 oid1 = Some ?d'" by (simp add: s2_def started_eq)
  have c: "status ?d' \<noteq> Pending" by simp
  have d: "start_analysis (store s2) (Resolved alice) oid1 2000 True
       = (Reject 400 ''Analysis is already being processed or completed'', store s2, None)"
    using isMongoId_oid1
    by (simp add: s2_def started_eq start_analysis_def start_found_def protect_def
        requirePremium_def validateObjectId_def findById_def alice_def home_eq)
  from status_moves_along_edges[of s1 s2 oid1 "home alice False" ?d' "store s2" oid1 ?d'
      "Resolved alice" 2000 True "Reject 400 ''Analysis is already being processed or completed''"
      "store s2" None]
    reachable_s1 step_s1_s2 a b c d
  show ?thesis by (simp add: home_eq)
qed

text \<open>
  C3 says that \<open>completedAt\<close> is set exactly when the status is completed and that
  the transition to failed leaves it unset. This is what the code does when the save
  of the completed status fails and the save of the failed status goes through:
  \<open>alice\<close> starts her analysis at time 1000; at 6000 the callback sets the result,
  \<open>completedAt\<close> and the processing time on the document in memory, and the save
  fails; the status of the same document is then set to failed and saved. The stored
  analysis is failed, with \<open>completedAt\<close>, the processing time and the result set.
\<close>

theorem failed_analysis_keeps_completedAt:
  "status (the (snd (snd (processing_callback (the (snd (snd started))) 0 0 6000 False 6001 True
                            (fst (snd started)))) oid1)) = Failed
   \<and> completedAt (the (snd (snd (processing_callback (the (snd (snd started))) 0 0 6000 False 6001
                            True (fst (snd started)))) oid1)) = Some 6000
   \<and> processingStartedAt (the (snd (snd (processing_callback (the (snd (snd started))) 0 0 6000
                            False 6001 True (fst (snd started)))) oid1)) = Some 1000
   \<and> processingTime (the (snd (snd (processing_callback (the (snd (snd started))) 0 0 6000
                            False 6001 True (fst (snd started)))) oid1)) = Some 5
   \<and> processingDuration (the (snd (snd (processing_callback (the (snd (snd started))) 0 0 6000
                            False 6001 True (fst (snd started)))) oid1)) = Some 5
   \<and> vastuAnalysis (the (snd (snd (processing_callback (the (snd (snd started))) 0 0 6000
                            False 6001 True (fst (snd started)))) oid1)) = mockResults 0 0"
  by (simp add: started_eq processing_callback_def updateStatus_def set_status_def save_def
      Let_def home_eq valid_def valid_room_def valid_vastu_def mockResults_def preSave_def
      calcArea_def truthy_def round_seconds_def alice_def processingDuration_def)

section \<open>Areas\<close>

lemma create_accepted:
  assumes "create_analysis D c b n ok = (Accept code msg a', D')"
  shows "\<exists>u. a' = preSave (new_analysis n u b) \<and> D' = D(n \<mapsto> a')"
proof -
  from assms obtain u where u: "protect c = Inr u"
    by (auto simp: create_analysis_def split: sum.splits)
  obtain e x D1 where i: "insert_doc ok (new_analysis n (uid u) b) D = (e, x, D1)"
    by (metis prod_cases3)
  from assms u i have "e = None \<and> x = a' \<and> D1 = D'"
    by (auto simp: create_analysis_def split: if_splits option.splits)
  with insert_cases[OF i] have "a' = preSave (new_analysis n (uid u) b) \<and> D' = D(n \<mapsto> a')"
    by (auto simp: new_analysis_def)
  then show ?thesis by blast
qed

lemma area_preSave_absent:
  "length_dim (dimensions (floorPlan a)) = None \<or> width (dimensions (floorPlan a)) = None
   \<Longrightarrow> area (dimensions (floorPlan (preSave a))) = area (dimensions (floorPlan a))"
  by (auto simp: preSave_def calcArea_def truthy_def)

text \<open>
  C4, as the code has it. Every document that a step of the service writes has its
  areas in order: the top-level area and the area of each room are the product of
  length and width whenever both are present and not zero. When the length or the
  width is absent the hook leaves the area alone, and the area that the caller gives
  when creating an analysis is the one stored.
\<close>

theorem area_recomputed_on_every_save:
  "(step s s' \<and> store s' i = Some a' \<and> store s i \<noteq> Some a' \<longrightarrow> area_ok a')
   \<and> (length_dim d = None \<or> width d = None \<longrightarrow> calcArea d = d)
   \<and> (create_analysis D c b n ok = (Accept code msg a1, D1)
        \<and> (length_dim (dimensions (c_floorPlan b)) = None
             \<or> width (dimensions (c_floorPlan b)) = None)
      \<longrightarrow> D1 n = Some a1
          \<and> area (dimensions (floorPlan a1)) = area (dimensions (c_floorPlan b)))"
proof (intro conjI impI)
  assume "step s s' \<and> store s' i = Some a' \<and> store s i \<noteq> Some a'"
  then show "area_ok a'" using step_writes_ok[of s s'] unfolding writes_ok_def by blast
next
  assume "length_dim d = None \<or> width d = None"
  then show "calcArea d = d" by (rule calcArea_absent)
next
  assume h: "create_analysis D c b n ok = (Accept code msg a1, D1)
        \<and> (length_dim (dimensions (c_floorPlan b)) = None
             \<or> width (dimensions (c_floorPlan b)) = None)"
  then obtain u where u: "a1 = preSave (new_analysis n u b)" "D1 = D(n \<mapsto> a1)"
    using create_accepted[of D c b n ok code msg a1 D1] by blast
  from u(2) show "D1 n = Some a1" by simp
  have "floorPlan (new_analysis n u b) = c_floorPlan b" by (simp add: new_analysis_def)
  with h u(1) area_preSave_absent[of "new_analysis n u b"]
  show "area (dimensions (floorPlan a1)) = area (dimensions (c_floorPlan b))" by simp
qed

theorem area_recomputed_on_every_save_witness:
  "step s1 s2 \<and> store s2 oid1 \<noteq> store s1 oid1
   \<and> area_ok (the (store s2 oid1))
   \<and> area (dimensions (floorPlan (the (store s2 oid1)))) = Some (10 * 12)
   \<and> length_dim (dimensions (plan2 500)) = None
   \<and> calcArea (dimensions (plan2 500)) = dimensions (plan2 500)
   \<and> (\<exists>a1. create_analysis Map.empty (Resolved alice) (body1 (plan2 500)) oid1 True
              = (Accept 201 ''Analysis created successfully'' a1, [oid1 \<mapsto> a1])
            \<and> area (dimensions (floorPlan a1)) = Some 500)"
proof -
  let ?d' = "(home alice False)\<lparr>status := Processing, processingStartedAt := Some 1000\<rparr>"
  let ?a1 = "preSave (new_analysis oid1 (uid alice) (body1 (plan2 500)))"
  have b: "store s2 oid1 = Some ?d'" by (simp add: s2_def started_eq)
  have a: "store s1 oid1 \<noteq> Some ?d'" by (simp add: s1_def db1_def home_eq)
  have l: "length_dim (dimensions (plan2 500)) = None" by (simp add: plan2_def)
  have ua: "uid alice \<noteq> []" by (simp add: alice_def)
  have cr: "create_analysis Map.empty (Resolved alice) (body1 (plan2 500)) oid1 True
              = (Accept 201 ''Analysis created successfully'' ?a1, [oid1 \<mapsto> ?a1])"
    using ua
    by (simp add: create_analysis_def protect_alice validateAnalysis_def body1_def
        trim_my_home insert_doc_def valid_def new_analysis_def Let_def default_vastu_def
        valid_vastu_def plan2_def at_least_one_def)
  have fp: "c_floorPlan (body1 (plan2 500)) = plan2 500" by (simp add: body1_def)
  note t = area_recomputed_on_every_save[of s1 s2 oid1 ?d' "dimensions (plan2 500)" Map.empty
      "Resolved alice" "body1 (plan2 500)" oid1 True 201 "''Analysis created successfully''"
      ?a1 "[oid1 \<mapsto> ?a1]"]
  from t step_s1_s2 a b have 1: "area_ok ?d'" by blast
  from t l have 2: "calcArea (dimensions (plan2 500)) = dimensions (plan2 500)" by blast
  from t cr l fp have "area (dimensions (floorPlan ?a1)) = area (dimensions (plan2 500))"
    by simp
  then have 3: "area (dimensions (floorPlan ?a1)) = Some 500" by (simp add: plan2_def)
  from cr 3 have 4: "\<exists>a1. create_analysis Map.empty (Resolved alice) (body1 (plan2 500)) oid1 True
              = (Accept 201 ''Analysis created successfully'' a1, [oid1 \<mapsto> a1])
            \<and> area (dimensions (floorPlan a1)) = Some 500" by blast
  from step_s1_s2 a b 1 2 l 4 show ?thesis by (simp add: home_eq)
qed

text \<open>
  C4 as the specification states it fails: a caller who sends an area without a
  length and a width sets the stored area, here to 500 and to 7.
\<close>

theorem area_set_by_caller:
  "area (dimensions (floorPlan (the (snd (create_analysis Map.empty (Resolved alice)
      (body1 (plan2 500)) oid1 True) oid1)))) = Some 500
   \<and> area (dimensions (floorPlan (the (snd (create_analysis Map.empty (Resolved alice)
      (body1 (plan2 7)) oid1 True) oid1)))) = Some 7"
  by (simp add: create_analysis_def protect_def alice_def validateAnalysis_def body1_def
      trim_my_home insert_doc_def valid_def new_analysis_def Let_def default_vastu_def
      valid_vastu_def preSave_def plan2_def at_least_one_def calcArea_def truthy_def oid1_def)

section \<open>Starting an analysis\<close>

lemma valid_set_status [simp]: "valid (set_status st now a) = valid a"
  by (simp add: set_status_def Let_def valid_def split: option.splits)

lemma protect_401: "protect c = Inl (code, msg) \<Longrightarrow> code = 401"
  by (auto simp: protect_def split: credential.splits if_splits)

lemma protect_optional: "protect c = Inr u \<Longrightarrow> optionalAuth c = Some u"
  by (auto simp: protect_def optionalAuth_def split: credential.splits if_splits)

lemma start_success:
  assumes "protect c = Inr u" "isPremium u" "isMongoId i" "D i = Some a" "aid a = i"
    "user a = uid u" "status a = Pending" "valid a"
  shows "start_analysis D c i now True
           = (Accept 200 ''Analysis processing started''
                (preSave (a\<lparr>status := Processing, processingStartedAt := Some now\<rparr>)),
              D(i \<mapsto> preSave (a\<lparr>status := Processing, processingStartedAt := Some now\<rparr>)),
              Some (preSave (a\<lparr>status := Processing, processingStartedAt := Some now\<rparr>)))"
proof -
  have s: "set_status Processing now a = a\<lparr>status := Processing, processingStartedAt := Some now\<rparr>"
    by (simp add: set_status_def)
  have v: "valid (set_status Processing now a)" using assms(8) by simp
  show ?thesis
    using assms(1-7) v
    by (simp add: start_analysis_def start_found_def requirePremium_def validateObjectId_def
        findById_def updateStatus_def save_def Let_def s[symmetric])
qed

lemma start_not_found:
  "protect c = Inr u \<Longrightarrow> isPremium u \<Longrightarrow> isMongoId i \<Longrightarrow> D i = None
   \<Longrightarrow> start_analysis D c i now ok = (Reject 404 ''Analysis not found'', D, None)"
  by (simp add: start_analysis_def start_found_def requirePremium_def validateObjectId_def
      findById_def)

lemma start_not_owner:
  "protect c = Inr u \<Longrightarrow> isPremium u \<Longrightarrow> isMongoId i \<Longrightarrow> D i = Some a \<Longrightarrow> user a \<noteq> uid u
   \<Longrightarrow> start_analysis D c i now ok = (Reject 403 ''Access denied'', D, None)"
  by (simp add: start_analysis_def start_found_def requirePremium_def validateObjectId_def
      findById_def)

lemma start_conflict:
  "protect c = Inr u \<Longrightarrow> isPremium u \<Longrightarrow> isMongoId i \<Longrightarrow> D i = Some a \<Longrightarrow> user a = uid u
   \<Longrightarrow> status a \<noteq> Pending
   \<Longrightarrow> start_analysis D c i now ok
         = (Reject 400 ''Analysis is already being processed or completed'', D, None)"
  by (simp add: start_analysis_def start_found_def requirePremium_def validateObjectId_def
      findById_def)

lemma start_unauthenticated:
  "protect c = Inl (code, msg) \<Longrightarrow> start_analysis D c i now ok = (Reject 401 msg, D, None)"
  using protect_401[of c code msg] by (simp add: start_analysis_def)

lemma start_not_premium:
  "protect c = Inr u \<Longrightarrow> \<not> isPremium u
   \<Longrightarrow> start_analysis D c i now ok
         = (Reject 403 ''Premium subscription required to access this feature.'', D, None)"
  by (simp add: start_analysis_def requirePremium_def)

text \<open>
  C2, as the code has it. Start answers 401 to a caller who is not authenticated and
  403 to a caller without a premium subscription, before it looks for the analysis.
  Let the caller be authenticated, active and premium, and the id well-formed.
  Without an analysis of this id start answers 404; on an analysis of another user
  403; on the caller's own analysis that is not pending 400 (already being processed
  or completed). In all these cases nothing is stored and no callback is scheduled.
  On the caller's own pending analysis, when the document passes the validation and
  the database takes the write, start stores the status processing and the time of
  the start and answers at once with this document: the result is not attached and
  \<open>completedAt\<close> is untouched, the scoring being left to the callback that start
  hands over.
\<close>

theorem start_of_premium_owner:
  "(\<forall>code msg. protect c = Inl (code, msg) \<longrightarrow>
      start_analysis D c i now ok = (Reject 401 msg, D, None))
   \<and> (\<forall>u. protect c = Inr u \<and> \<not> isPremium u \<longrightarrow>
      start_analysis D c i now ok
        = (Reject 403 ''Premium subscription required to access this feature.'', D, None))
   \<and> (\<forall>u. protect c = Inr u \<and> isPremium u \<and> isMongoId i \<longrightarrow>
        (D i = None \<longrightarrow>
            start_analysis D c i now ok = (Reject 404 ''Analysis not found'', D, None))
        \<and> (\<forall>a. D i = Some a \<and> user a \<noteq> uid u \<longrightarrow>
            start_analysis D c i now ok = (Reject 403 ''Access denied'', D, None))
        \<and> (\<forall>a. D i = Some a \<and> user a = uid u \<and> status a \<noteq> Pending \<longrightarrow>
            start_analysis D c i now ok
              = (Reject 400 ''Analysis is already being processed or completed'', D, None))
        \<and> (\<forall>a. D i = Some a \<and> aid a = i \<and> user a = uid u \<and> status a = Pending \<and> valid a \<longrightarrow>
            (\<exists>a'. start_analysis D c i now True
                     = (Accept 200 ''Analysis processing started'' a', D(i \<mapsto> a'), Some a')
                 \<and> status a' = Processing \<and> processingStartedAt a' = Some now
                 \<and> completedAt a' = completedAt a \<and> vastuAnalysis a' = vastuAnalysis a)))"
proof (intro conjI allI impI)
  fix code msg assume "protect c = Inl (code, msg)"
  then show "start_analysis D c i now ok = (Reject 401 msg, D, None)"
    by (rule start_unauthenticated)
next
  fix u assume "protect c = Inr u \<and> \<not> isPremium u"
  then show "start_analysis D c i now ok
        = (Reject 403 ''Premium subscription required to access this feature.'', D, None)"
    by (simp add: start_not_premium)
next
  fix u assume "protect c = Inr u \<and> isPremium u \<and> isMongoId i" "D i = None"
  then show "start_analysis D c i now ok = (Reject 404 ''Analysis not found'', D, None)"
    by (simp add: start_not_found)
next
  fix u a assume "protect c = Inr u \<and> isPremium u \<and> isMongoId i" "D i = Some a \<and> user a \<noteq> uid u"
  then show "start_analysis D c i now ok = (Reject 403 ''Access denied'', D, None)"
    by (simp add: start_not_owner)
next
  fix u a assume "protect c = Inr u \<and> isPremium u \<and> isMongoId i"
    "D i = Some a \<and> user a = uid u \<and> status a \<noteq> Pending"
  then show "start_analysis D c i now ok
              = (Reject 400 ''Analysis is already being processed or completed'', D, None)"
    by (simp add: start_conflict)
next
  fix u a assume g: "protect c = Inr u \<and> isPremium u \<and> isMongoId i"
    and h: "D i = Some a \<and> aid a = i \<and> user a = uid u \<and> status a = Pending \<and> valid a"
  let ?a' = "preSave (a\<lparr>status := Processing, processingStartedAt := Some now\<rparr>)"
  have "start_analysis D c i now True
          = (Accept 200 ''Analysis processing started'' ?a', D(i \<mapsto> ?a'), Some ?a')"
    using start_success[of c u i D a now] g h by simp
  moreover have "status ?a' = Processing \<and> processingStartedAt ?a' = Some now
      \<and> completedAt ?a' = completedAt a \<and> vastuAnalysis ?a' = vastuAnalysis a"
    by (simp add: preSave_def)
  ultimately show "\<exists>a'. start_analysis D c i now True
                     = (Accept 200 ''Analysis processing started'' a', D(i \<mapsto> a'), Some a')
                 \<and> status a' = Processing \<and> processingStartedAt a' = Some now
                 \<and> completedAt a' = completedAt a \<and> vastuAnalysis a' = vastuAnalysis a"
    by blast
qed

theorem start_of_premium_owner_witness:
  "protect NoToken = Inl (401, ''Access denied. No token provided.'')
   \<and> start_analysis (db1 alice False) NoToken oid1 1000 True
       = (Reject 401 ''Access denied. No token provided.'', db1 alice False, None)
   \<and> protect (Resolved bob) = Inr bob \<and> \<not> isPremium bob
   \<and> start_analysis (db1 bob False) (Resolved bob) oid1 1000 True
       = (Reject 403 ''Premium subscription required to access this feature.'',
          db1 bob False, None)
   \<and> protect (Resolved alice) = Inr alice \<and> isPremium alice \<and> isMongoId oid1
   \<and> start_analysis Map.empty (Resolved alice) oid1 1000 True
       = (Reject 404 ''Analysis not found'', Map.empty, None)
   \<and> user (home bob False) \<noteq> uid alice
   \<and> start_analysis (db1 bob False) (Resolved alice) oid1 1000 True
       = (Reject 403 ''Access denied'', db1 bob False, None)
   \<and> status (the (fst (snd started) oid1)) = Processing
   \<and> start_analysis (fst (snd started)) (Resolved alice) oid1 2000 True
       = (Reject 400 ''Analysis is already being processed or completed'', fst (snd started),
          None)
   \<and> valid (home alice False) \<and> status (home alice False) = Pending
   \<and> (\<exists>a'. start_analysis (db1 alice False) (Resolved alice) oid1 1000 True
              = (Accept 200 ''Analysis processing started'' a', (db1 alice False)(oid1 \<mapsto> a'),
                 Some a')
          \<and> status a' = Processing \<and> processingStartedAt a' = Some 1000
          \<and> completedAt a' = None \<and> vastuAnalysis a' = default_vastu)"
proof -
  have pn: "protect NoToken = Inl (401, ''Access denied. No token provided.'')"
    by (simp add: protect_def)
  have pb: "protect (Resolved bob) = Inr bob" and qb: "\<not> isPremium bob"
    by (simp_all add: protect_def bob_def)
  have p: "protect (Resolved alice) = Inr alice" by (rule protect_alice)
  have q: "isPremium alice" by (simp add: alice_def)
  have 0: "start_analysis (db1 alice False) NoToken oid1 1000 True
       = (Reject 401 ''Access denied. No token provided.'', db1 alice False, None)"
    using start_of_premium_owner[of NoToken "db1 alice False" oid1 1000 True] pn by blast
  have 5: "start_analysis (db1 bob False) (Resolved bob) oid1 1000 True
       = (Reject 403 ''Premium subscription required to access this feature.'',
          db1 bob False, None)"
    using start_of_premium_owner[of "Resolved bob" "db1 bob False" oid1 1000 True] pb qb
    by blast
  have 1: "start_analysis Map.empty (Resolved alice) oid1 1000 True
       = (Reject 404 ''Analysis not found'', Map.empty, None)"
    using start_of_premium_owner[of "Resolved alice" Map.empty oid1 1000 True] p q
      isMongoId_oid1 by simp
  have b: "user (home bob False) \<noteq> uid alice" by (simp add: home_eq alice_def bob_def)
  have db: "db1 bob False oid1 = Some (home bob False)" by (simp add: db1_def)
  have 2: "start_analysis (db1 bob False) (Resolved alice) oid1 1000 True
       = (Reject 403 ''Access denied'', db1 bob False, None)"
    using start_of_premium_owner[of "Resolved alice" "db1 bob False" oid1 1000 True] p q
      isMongoId_oid1 b db by blast
  have s: "fst (snd started) oid1
             = Some ((home alice False)\<lparr>status := Processing, processingStartedAt := Some 1000\<rparr>)"
    by (simp add: started_eq)
  have sa: "user ((home alice False)\<lparr>status := Processing, processingStartedAt := Some 1000\<rparr>)
              = uid alice"
    "status ((home alice False)\<lparr>status := Processing, processingStartedAt := Some 1000\<rparr>)
              \<noteq> Pending"
    by (simp_all add: home_eq)
  have 3: "start_analysis (fst (snd started)) (Resolved alice) oid1 2000 True
       = (Reject 400 ''Analysis is already being processed or completed'', fst (snd started),
          None)"
    using start_of_premium_owner[of "Resolved alice" "fst (snd started)" oid1 2000 True] p q
      isMongoId_oid1 s sa by blast
  have v: "valid (home alice False)" by (rule valid_home) (simp add: alice_def)
  have da: "db1 alice False oid1 = Some (home alice False)" by (simp add: db1_def)
  have ha: "user (home alice False) = uid alice" "status (home alice False) = Pending"
    "completedAt (home alice False) = None" "vastuAnalysis (home alice False) = default_vastu"
    by (simp_all add: home_eq)
  have "\<exists>a'. start_analysis (db1 alice False) (Resolved alice) oid1 1000 True
              = (Accept 200 ''Analysis processing started'' a', (db1 alice False)(oid1 \<mapsto> a'),
                 Some a')
          \<and> status a' = Processing \<and> processingStartedAt a' = Some 1000
          \<and> completedAt a' = completedAt (home alice False)
          \<and> vastuAnalysis a' = vastuAnalysis (home alice False)"
    using start_of_premium_owner[of "Resolved alice" "db1 alice False" oid1 1000 True] p q
      isMongoId_oid1 da aid_home[of alice False] ha(1,2) v by blast
  then have 4: "\<exists>a'. start_analysis (db1 alice False) (Resolved alice) oid1 1000 True
              = (Accept 200 ''Analysis processing started'' a', (db1 alice False)(oid1 \<mapsto> a'),
                 Some a')
          \<and> status a' = Processing \<and> processingStartedAt a' = Some 1000
          \<and> completedAt a' = None \<and> vastuAnalysis a' = default_vastu"
    by (simp add: ha)
  show ?thesis using pn 0 pb qb 5 p q isMongoId_oid1 1 b 2 s 3 v ha(2) 4 by simp
qed

text \<open>
  C2 as the specification states it fails: \<open>bob\<close> owns a pending analysis and is
  not premium; his start is rejected with 403 and nothing is stored.
\<close>

theorem start_of_owner_without_premium:
  "findById (db1 bob False) oid1 = Some (home bob False)
   \<and> user (home bob False) = uid bob \<and> status (home bob False) = Pending
   \<and> start_analysis (db1 bob False) (Resolved bob) oid1 1000 True
       = (Reject 403 ''Premium subscription required to access this feature.'',
          db1 bob False, None)"
  by (simp add: findById_def db1_def home_eq start_analysis_def protect_def requirePremium_def
      bob_def)

section \<open>Who may read and who may change\<close>

lemma get_private:
  "D i = Some a \<Longrightarrow> isMongoId i \<Longrightarrow> not_owner (optionalAuth c) a \<Longrightarrow> \<not> isPublic a
   \<Longrightarrow> get_by_id D c i ok = (Reject 403 ''Access denied'', D)"
  by (simp add: get_by_id_def get_found_def validateObjectId_def findById_def)

lemma get_public:
  "D i = Some a \<Longrightarrow> aid a = i \<Longrightarrow> isMongoId i \<Longrightarrow> not_owner (optionalAuth c) a \<Longrightarrow> isPublic a
   \<Longrightarrow> get_by_id D c i True
         = (Accept 200 [] (preSave (a\<lparr>views := views a + 1\<rparr>)),
            D(i \<mapsto> preSave (a\<lparr>views := views a + 1\<rparr>)))"
  by (simp add: get_by_id_def get_found_def validateObjectId_def findById_def
      incrementViews_def save_def Let_def)

lemma get_public_db_down:
  "D i = Some a \<Longrightarrow> isMongoId i \<Longrightarrow> not_owner (optionalAuth c) a \<Longrightarrow> isPublic a
   \<Longrightarrow> get_by_id D c i False = (Thrown DbError, D)"
  by (simp add: get_by_id_def get_found_def validateObjectId_def findById_def
      incrementViews_def save_def Let_def)

lemma mutation_by_other:
  assumes "D i = Some a" "isMongoId i" "protect c = Inr u" "user a \<noteq> uid u"
  shows "update_analysis D c i b ok = (Reject 403 ''Access denied'', D)"
    and "delete_analysis D c i ok = (Reject 403 ''Access denied'', D)"
    and "\<exists>msg. start_analysis D c i now ok = (Reject 403 msg, D, None)"
  using assms
  by (simp_all add: update_analysis_def delete_analysis_def start_analysis_def start_found_def
      requirePremium_def validateObjectId_def findById_def)

lemma mutation_unauthenticated:
  assumes "protect c = Inl (code, msg)"
  shows "update_analysis D c i b ok = (Reject 401 msg, D)"
    and "delete_analysis D c i ok = (Reject 401 msg, D)"
    and "start_analysis D c i now ok = (Reject 401 msg, D, None)"
  using assms protect_401[OF assms]
  by (simp_all add: update_analysis_def delete_analysis_def start_analysis_def)

text \<open>
  C5, as the code has it. For a stored analysis and a caller who is not its owner
  (authenticated or not), get-by-id answers 403 when the analysis is private and
  returns it when it is public (and the view can be counted). Update, delete and
  start answer 403 to an authenticated caller who is not the owner, whatever the
  visibility, and 401 to a caller who is not authenticated; they store nothing.
\<close>

theorem reads_and_mutations_by_others:
  assumes "D i = Some a" "aid a = i" "isMongoId i"
  shows "(not_owner (optionalAuth c) a \<longrightarrow>
            (\<not> isPublic a \<longrightarrow> get_by_id D c i ok = (Reject 403 ''Access denied'', D))
          \<and> (isPublic a \<longrightarrow>
               get_by_id D c i True
                 = (Accept 200 [] (preSave (a\<lparr>views := views a + 1\<rparr>)),
                    D(i \<mapsto> preSave (a\<lparr>views := views a + 1\<rparr>)))))
       \<and> (\<forall>u. protect c = Inr u \<and> user a \<noteq> uid u \<longrightarrow>
            update_analysis D c i b ok = (Reject 403 ''Access denied'', D)
            \<and> delete_analysis D c i ok = (Reject 403 ''Access denied'', D)
            \<and> (\<exists>msg. start_analysis D c i now ok = (Reject 403 msg, D, None)))
       \<and> (\<forall>code msg. protect c = Inl (code, msg) \<longrightarrow>
            update_analysis D c i b ok = (Reject 401 msg, D)
            \<and> delete_analysis D c i ok = (Reject 401 msg, D)
            \<and> start_analysis D c i now ok = (Reject 401 msg, D, None))"
proof (intro conjI allI impI)
  assume "not_owner (optionalAuth c) a" "\<not> isPublic a"
  then show "get_by_id D c i ok = (Reject 403 ''Access denied'', D)"
    using assms by (simp add: get_private)
next
  assume "not_owner (optionalAuth c) a" "isPublic a"
  then show "get_by_id D c i True
                 = (Accept 200 [] (preSave (a\<lparr>views := views a + 1\<rparr>)),
                    D(i \<mapsto> preSave (a\<lparr>views := views a + 1\<rparr>)))"
    using assms by (simp add: get_public)
next
  fix u assume h: "protect c = Inr u \<and> user a \<noteq> uid u"
  from h show "update_analysis D c i b ok = (Reject 403 ''Access denied'', D)"
    using assms mutation_by_other(1) by blast
  from h show "delete_analysis D c i ok = (Reject 403 ''Access denied'', D)"
    using assms mutation_by_other(2) by blast
  from h show "\<exists>msg. start_analysis D c i now ok = (Reject 403 msg, D, None)"
    using assms mutation_by_other(3) by blast
next
  fix code msg assume h: "protect c = Inl (code, msg)"
  from h show "update_analysis D c i b ok = (Reject 401 msg, D)"
    by (rule mutation_unauthenticated(1))
  from h show "delete_analysis D c i ok = (Reject 401 msg, D)"
    by (rule mutation_unauthenticated(2))
  from h show "start_analysis D c i now ok = (Reject 401 msg, D, None)"
    by (rule mutation_unauthenticated(3))
qed

theorem reads_and_mutations_by_others_witness:
  "db1 alice False oid1 = Some (home alice False) \<and> aid (home alice False) = oid1
   \<and> isMongoId oid1 \<and> not_owner (optionalAuth NoToken) (home alice False)
   \<and> \<not> isPublic (home alice False)
   \<and> get_by_id (db1 alice False) NoToken oid1 True
       = (Reject 403 ''Access denied'', db1 alice False)
   \<and> not_owner (optionalAuth (Resolved bob)) (home alice True) \<and> isPublic (home alice True)
   \<and> get_by_id (db1 alice True) (Resolved bob) oid1 True
       = (Accept 200 [] ((home alice True)\<lparr>views := 1\<rparr>),
          [oid1 \<mapsto> (home alice True)\<lparr>views := 1\<rparr>])
   \<and> protect (Resolved bob) = Inr bob \<and> user (home alice True) \<noteq> uid bob
   \<and> update_analysis (db1 alice True) (Resolved bob) oid1
        \<lparr>u_title = None, u_description = None, u_isPublic = Some False, u_tags = None\<rparr> True
       = (Reject 403 ''Access denied'', db1 alice True)
   \<and> delete_analysis (db1 alice True) (Resolved bob) oid1 True
       = (Reject 403 ''Access denied'', db1 alice True)
   \<and> (\<exists>msg. start_analysis (db1 alice True) (Resolved bob) oid1 1000 True
               = (Reject 403 msg, db1 alice True, None))
   \<and> protect NoToken = Inl (401, ''Access denied. No token provided.'')
   \<and> update_analysis (db1 alice True) NoToken oid1
        \<lparr>u_title = None, u_description = None, u_isPublic = Some False, u_tags = None\<rparr> True
       = (Reject 401 ''Access denied. No token provided.'', db1 alice True)"
proof -
  let ?b = "\<lparr>u_title = None, u_description = None, u_isPublic = Some False, u_tags = None\<rparr>"
  have d0: "db1 alice False oid1 = Some (home alice False)"
    and d1: "db1 alice True oid1 = Some (home alice True)"
    by (simp_all add: db1_def)
  have n0: "not_owner (optionalAuth NoToken) (home alice False)"
    and n1: "not_owner (optionalAuth (Resolved bob)) (home alice True)"
    by (simp_all add: not_owner_def optionalAuth_def bob_def alice_def home_eq)
  have p0: "\<not> isPublic (home alice False)" and p1: "isPublic (home alice True)"
    by (simp_all add: home_eq)
  have pb: "protect (Resolved bob) = Inr bob"
    and pn: "protect NoToken = Inl (401, ''Access denied. No token provided.'')"
    by (simp_all add: protect_def bob_def)
  have ub: "user (home alice True) \<noteq> uid bob" by (simp add: home_eq alice_def bob_def)
  have v: "preSave ((home alice True)\<lparr>views := views (home alice True) + 1\<rparr>)
             = (home alice True)\<lparr>views := 1\<rparr>"
    by (simp add: home_eq preSave_def calcArea_def truthy_def)
  note t0 = reads_and_mutations_by_others[of "db1 alice False" oid1 "home alice False" NoToken
      True ?b 1000, OF d0 aid_home isMongoId_oid1]
  note t1 = reads_and_mutations_by_others[of "db1 alice True" oid1 "home alice True"
      "Resolved bob" True ?b 1000, OF d1 aid_home isMongoId_oid1]
  note t2 = reads_and_mutations_by_others[of "db1 alice True" oid1 "home alice True" NoToken
      True ?b 1000, OF d1 aid_home isMongoId_oid1]
  have g0: "get_by_id (db1 alice False) NoToken oid1 True
       = (Reject 403 ''Access denied'', db1 alice False)"
    using t0 n0 p0 by blast
  have g1: "get_by_id (db1 alice True) (Resolved bob) oid1 True
       = (Accept 200 [] ((home alice True)\<lparr>views := 1\<rparr>),
          [oid1 \<mapsto> (home alice True)\<lparr>views := 1\<rparr>])"
    using t1 n1 p1 v by (simp add: db1_def)
  have m1: "update_analysis (db1 alice True) (Resolved bob) oid1 ?b True
       = (Reject 403 ''Access denied'', db1 alice True)"
    "delete_analysis (db1 alice True) (Resolved bob) oid1 True
       = (Reject 403 ''Access denied'', db1 alice True)"
    "\<exists>msg. start_analysis (db1 alice True) (Resolved bob) oid1 1000 True
               = (Reject 403 msg, db1 alice True, None)"
    using t1 pb ub by blast+
  have m2: "update_analysis (db1 alice True) NoToken oid1 ?b True
       = (Reject 401 ''Access denied. No token provided.'', db1 alice True)"
    using t2 pn by blast
  show ?thesis
    using d0 aid_home[of alice False] isMongoId_oid1 n0 p0 g0 n1 p1 g1 pb ub m1 pn m2
    by blast
qed

text \<open>
  C5 as the specification states it fails: a caller without a token is not the
  owner, and update, delete and start answer 401 to this caller, not 403.
\<close>

theorem mutation_without_token:
  "update_analysis (db1 alice True) NoToken oid1
       \<lparr>u_title = None, u_description = None, u_isPublic = Some False, u_tags = None\<rparr> True
     = (Reject 401 ''Access denied. No token provided.'', db1 alice True)
   \<and> delete_analysis (db1 alice True) NoToken oid1 True
     = (Reject 401 ''Access denied. No token provided.'', db1 alice True)
   \<and> start_analysis (db1 alice True) NoToken oid1 1000 True
     = (Reject 401 ''Access denied. No token provided.'', db1 alice True, None)"
  by (simp add: update_analysis_def delete_analysis_def start_analysis_def protect_def)

section \<open>Counting views\<close>

text \<open>
  C6, as the code has it. When a caller who is not the owner reads a public analysis
  and the database takes the write, the read succeeds and the stored and returned
  analysis has one view more; nothing is assumed of the validity of the document,
  which is saved without validation. When the database refuses the write the handler
  throws: the read fails and nothing is stored.
\<close>

theorem view_is_counted:
  assumes "D i = Some a" "aid a = i" "isMongoId i" "isPublic a"
    "not_owner (optionalAuth c) a"
  shows "get_by_id D c i True
           = (Accept 200 [] (preSave (a\<lparr>views := views a + 1\<rparr>)),
              D(i \<mapsto> preSave (a\<lparr>views := views a + 1\<rparr>)))
       \<and> views (preSave (a\<lparr>views := views a + 1\<rparr>)) = views a + 1
       \<and> get_by_id D c i False = (Thrown DbError, D)"
  using assms by (simp add: get_public get_public_db_down preSave_def)

theorem view_is_counted_witness:
  "\<not> valid ((home alice True)\<lparr>title := []\<rparr>)
   \<and> isPublic ((home alice True)\<lparr>title := []\<rparr>)
   \<and> not_owner (optionalAuth (Resolved bob)) ((home alice True)\<lparr>title := []\<rparr>)
   \<and> get_by_id [oid1 \<mapsto> (home alice True)\<lparr>title := []\<rparr>] (Resolved bob) oid1 True
       = (Accept 200 [] ((home alice True)\<lparr>title := [], views := 1\<rparr>),
          [oid1 \<mapsto> (home alice True)\<lparr>title := [], views := 1\<rparr>])
   \<and> get_by_id [oid1 \<mapsto> (home alice True)\<lparr>title := []\<rparr>] (Resolved bob) oid1 False
       = (Thrown DbError, [oid1 \<mapsto> (home alice True)\<lparr>title := []\<rparr>])"
proof -
  let ?a = "(home alice True)\<lparr>title := []\<rparr>"
  have d: "[oid1 \<mapsto> ?a] oid1 = Some ?a" by simp
  have i: "aid ?a = oid1" by (simp add: home_eq)
  have p: "isPublic ?a" by (simp add: home_eq)
  have n: "not_owner (optionalAuth (Resolved bob)) ?a"
    by (simp add: not_owner_def optionalAuth_def bob_def alice_def home_eq)
  have nv: "\<not> valid ?a" by (simp add: valid_def)
  have v: "preSave (?a\<lparr>views := views ?a + 1\<rparr>) = (home alice True)\<lparr>title := [], views := 1\<rparr>"
    by (simp add: home_eq preSave_def calcArea_def truthy_def)
  from view_is_counted[of "[oid1 \<mapsto> ?a]" oid1 ?a "Resolved bob", OF d i isMongoId_oid1 p n]
    v nv p n
  show ?thesis by simp
qed

text \<open>
  C6 as the specification states it fails: when the counter cannot be saved the read
  of a public analysis by a caller without a token does not succeed.
\<close>

theorem read_fails_when_view_is_not_saved:
  "get_by_id (db1 alice True) NoToken oid1 False = (Thrown DbError, db1 alice True)"
  using isMongoId_oid1
  by (simp add: get_by_id_def get_found_def validateObjectId_def findById_def db1_def
      optionalAuth_def not_owner_def incrementViews_def save_def Let_def home_eq)

section \<open>Requests one after the other, and requests that overlap\<close>

lemma like_once:
  assumes "D i = Some a" "aid a = i" "isMongoId i" "isPublic a" "protect c = Inr u"
  shows "snd (like_analysis D c i True) = D(i \<mapsto> preSave (a\<lparr>likes := likes a + 1\<rparr>))"
  using assms
  by (simp add: like_analysis_def like_found_def like_def validateObjectId_def findById_def
      save_def Let_def)

lemma share_once:
  assumes "D i = Some a" "aid a = i" "isMongoId i" "isPublic a" "protect c = Inr u"
  shows "snd (share_analysis D c i True) = D(i \<mapsto> preSave (a\<lparr>shares := shares a + 1\<rparr>))"
  using assms
  by (simp add: share_analysis_def share_found_def share_def validateObjectId_def findById_def
      save_def Let_def)

lemma likes_in_a_row:
  assumes "D i = Some a" "aid a = i" "isMongoId i" "isPublic a" "protect c = Inr u"
  shows "\<exists>a'. ((\<lambda>D. snd (like_analysis D c i True)) ^^ n) D i = Some a' \<and> aid a' = i
               \<and> isPublic a' \<and> likes a' = likes a + int n"
proof (induction n)
  case 0
  then show ?case using assms by simp
next
  case (Suc n)
  then obtain a' where a': "((\<lambda>D. snd (like_analysis D c i True)) ^^ n) D i = Some a'"
    "aid a' = i" "isPublic a'" "likes a' = likes a + int n" by blast
  from like_once[of "((\<lambda>D. snd (like_analysis D c i True)) ^^ n) D" i a' c u,
      OF a'(1,2) assms(3) a'(3) assms(5)] a' show ?case
    by (simp add: preSave_def)
qed

lemma shares_in_a_row:
  assumes "D i = Some a" "aid a = i" "isMongoId i" "isPublic a" "protect c = Inr u"
  shows "\<exists>a'. ((\<lambda>D. snd (share_analysis D c i True)) ^^ n) D i = Some a' \<and> aid a' = i
               \<and> isPublic a' \<and> shares a' = shares a + int n"
proof (induction n)
  case 0
  then show ?case using assms by simp
next
  case (Suc n)
  then obtain a' where a': "((\<lambda>D. snd (share_analysis D c i True)) ^^ n) D i = Some a'"
    "aid a' = i" "isPublic a'" "shares a' = shares a + int n" by blast
  from share_once[of "((\<lambda>D. snd (share_analysis D c i True)) ^^ n) D" i a' c u,
      OF a'(1,2) assms(3) a'(3) assms(5)] a' show ?case
    by (simp add: preSave_def)
qed

lemma views_in_a_row:
  assumes "D i = Some a" "aid a = i" "isMongoId i" "isPublic a"
    "not_owner (optionalAuth c) a"
  shows "\<exists>a'. ((\<lambda>D. snd (get_by_id D c i True)) ^^ n) D i = Some a' \<and> aid a' = i
               \<and> isPublic a' \<and> user a' = user a \<and> views a' = views a + int n"
proof (induction n)
  case 0
  then show ?case using assms by simp
next
  case (Suc n)
  then obtain a' where a': "((\<lambda>D. snd (get_by_id D c i True)) ^^ n) D i = Some a'"
    "aid a' = i" "isPublic a'" "user a' = user a" "views a' = views a + int n" by blast
  have "not_owner (optionalAuth c) a'"
    using assms(5) a'(4) by (simp add: not_owner_def split: option.splits)
  from get_public[of "((\<lambda>D. snd (get_by_id D c i True)) ^^ n) D" i a' c,
      OF a'(1,2) assms(3) this a'(3)] a' show ?case
    by (simp add: preSave_def)
qed

lemma start_accepted:
  assumes "start_analysis D c i now ok = (Accept code msg a1, D1, t)" "keyed D"
  shows "\<exists>u a. protect c = Inr u \<and> isPremium u \<and> isMongoId i \<and> D i = Some a
            \<and> user a = uid u \<and> D1 = D(i \<mapsto> a1) \<and> user a1 = uid u \<and> status a1 = Processing
            \<and> t = Some a1"
proof -
  from assms(1) obtain u where u: "protect c = Inr u"
    by (auto simp: start_analysis_def split: sum.splits)
  from assms(1) u have p: "isPremium u"
    by (auto simp: start_analysis_def requirePremium_def split: if_splits)
  from assms(1) u p have m: "isMongoId i"
    by (auto simp: start_analysis_def requirePremium_def validateObjectId_def split: if_splits)
  from assms(1) u p m have f: "start_found u (D i) now ok D = (Accept code msg a1, D1, t)"
    by (simp add: start_analysis_def requirePremium_def validateObjectId_def findById_def)
  then obtain a where a: "D i = Some a"
    by (cases "D i") (auto simp: start_found_def)
  from assms(2) a have k: "aid a = i" by (simp add: keyed_def)
  from f a have o: "user a = uid u" "status a = Pending"
    by (auto simp: start_found_def split: if_splits)
  from f a o k have "a1 = preSave (set_status Processing now a) \<and> D1 = D(i \<mapsto> a1) \<and> t = Some a1"
    by (auto simp: start_found_def updateStatus_def save_def Let_def
        split: if_splits)
  moreover have "user (preSave (set_status Processing now a)) = user a"
    by (simp add: preSave_def set_status_def)
  ultimately show ?thesis using u p m a o by auto
qed

text \<open>
  C7, as the code has it. The handlers read with one query and write with a later
  save, and nothing ties the two together. Requests that run one after the other
  behave as the specification asks: \<open>n\<close> likes, shares or reads by others in a row
  add \<open>n\<close> to the counter, and after a start that was accepted a second start of
  the same caller is rejected with 400 and schedules nothing.
\<close>

theorem requests_in_a_row:
  assumes "D i = Some a" "aid a = i" "isMongoId i" "isPublic a" "keyed D"
  shows "(\<forall>u. protect c = Inr u \<longrightarrow>
            map_option likes (((\<lambda>D. snd (like_analysis D c i True)) ^^ n) D i)
              = Some (likes a + int n)
            \<and> map_option shares (((\<lambda>D. snd (share_analysis D c i True)) ^^ n) D i)
              = Some (shares a + int n))
       \<and> (not_owner (optionalAuth c) a \<longrightarrow>
            map_option views (((\<lambda>D. snd (get_by_id D c i True)) ^^ n) D i)
              = Some (views a + int n))
       \<and> (\<forall>code msg a1 D1 t. start_analysis D c i now ok = (Accept code msg a1, D1, t) \<longrightarrow>
            start_analysis D1 c i now' ok'
              = (Reject 400 ''Analysis is already being processed or completed'', D1, None))"
proof (intro conjI allI impI)
  fix u assume u: "protect c = Inr u"
  from likes_in_a_row[of D i a c u n, OF assms(1-4) u]
  show "map_option likes (((\<lambda>D. snd (like_analysis D c i True)) ^^ n) D i)
          = Some (likes a + int n)" by auto
  from shares_in_a_row[of D i a c u n, OF assms(1-4) u]
  show "map_option shares (((\<lambda>D. snd (share_analysis D c i True)) ^^ n) D i)
          = Some (shares a + int n)" by auto
next
  assume "not_owner (optionalAuth c) a"
  from views_in_a_row[of D i a c n, OF assms(1-4) this]
  show "map_option views (((\<lambda>D. snd (get_by_id D c i True)) ^^ n) D i)
          = Some (views a + int n)" by auto
next
  fix code msg a1 D1 t
  assume "start_analysis D c i now ok = (Accept code msg a1, D1, t)"
  from start_accepted[OF this assms(5)] obtain u where
    u: "protect c = Inr u" "isPremium u" "D1 = D(i \<mapsto> a1)" "user a1 = uid u"
      "status a1 = Processing" by blast
  have "D1 i = Some a1" using u(3) by simp
  from start_conflict[of c u i D1 a1 now' ok', OF u(1,2) assms(3) this u(4)] u(5)
  show "start_analysis D1 c i now' ok'
          = (Reject 400 ''Analysis is already being processed or completed'', D1, None)"
    by simp
qed

lemma liked_first_eq:
  "liked_first = (Accept 200 ''Analysis liked successfully'' 1,
                  [oid1 \<mapsto> (home alice True)\<lparr>likes := 1\<rparr>])"
  by (simp add: liked_first_def like_found_def findById_def db1_def like_def save_def Let_def
      home_eq preSave_def calcArea_def truthy_def)

lemma liked_second_eq:
  "liked_second = (Accept 200 ''Analysis liked successfully'' 1,
                   [oid1 \<mapsto> (home alice True)\<lparr>likes := 1\<rparr>])"
  by (simp add: liked_second_def liked_first_eq like_found_def findById_def db1_def like_def
      save_def Let_def home_eq preSave_def calcArea_def truthy_def)

lemma started_first_eq:
  "started_first
     = (Accept 200 ''Analysis processing started''
          ((home alice False)\<lparr>status := Processing, processingStartedAt := Some 1000\<rparr>),
        [oid1 \<mapsto> (home alice False)\<lparr>status := Processing, processingStartedAt := Some 1000\<rparr>],
        Some ((home alice False)\<lparr>status := Processing, processingStartedAt := Some 1000\<rparr>))"
  by (simp add: started_first_def start_found_def findById_def db1_def updateStatus_def
      set_status_def save_def Let_def home_eq preSave_def calcArea_def truthy_def alice_def
      valid_def valid_room_def valid_vastu_def default_vastu_def)

lemma started_second_eq:
  "started_second
     = (Accept 200 ''Analysis processing started''
          ((home alice False)\<lparr>status := Processing, processingStartedAt := Some 1001\<rparr>),
        [oid1 \<mapsto> (home alice False)\<lparr>status := Processing, processingStartedAt := Some 1001\<rparr>],
        Some ((home alice False)\<lparr>status := Processing, processingStartedAt := Some 1001\<rparr>))"
  by (simp add: started_second_def started_first_eq start_found_def findById_def db1_def
      updateStatus_def set_status_def save_def Let_def home_eq preSave_def calcArea_def
      truthy_def alice_def valid_def valid_room_def valid_vastu_def default_vastu_def)

theorem requests_in_a_row_witness:
  "db1 alice True oid1 = Some (home alice True) \<and> aid (home alice True) = oid1
   \<and> isMongoId oid1 \<and> isPublic (home alice True) \<and> keyed (db1 alice True)
   \<and> protect (Resolved bob) = Inr bob
   \<and> not_owner (optionalAuth (Resolved bob)) (home alice True)
   \<and> map_option likes (((\<lambda>D. snd (like_analysis D (Resolved bob) oid1 True)) ^^ 3)
        (db1 alice True) oid1) = Some 3
   \<and> map_option shares (((\<lambda>D. snd (share_analysis D (Resolved bob) oid1 True)) ^^ 3)
        (db1 alice True) oid1) = Some 3
   \<and> map_option views (((\<lambda>D. snd (get_by_id D (Resolved bob) oid1 True)) ^^ 3)
        (db1 alice True) oid1) = Some 3
   \<and> start_analysis (db1 alice True) (Resolved alice) oid1 1000 True
       = (Accept 200 ''Analysis processing started''
            ((home alice True)\<lparr>status := Processing, processingStartedAt := Some 1000\<rparr>),
          [oid1 \<mapsto> (home alice True)\<lparr>status := Processing, processingStartedAt := Some 1000\<rparr>],
          Some ((home alice True)\<lparr>status := Processing, processingStartedAt := Some 1000\<rparr>))
   \<and> start_analysis
        [oid1 \<mapsto> (home alice True)\<lparr>status := Processing, processingStartedAt := Some 1000\<rparr>]
        (Resolved alice) oid1 1001 True
       = (Reject 400 ''Analysis is already being processed or completed'',
          [oid1 \<mapsto> (home alice True)\<lparr>status := Processing, processingStartedAt := Some 1000\<rparr>],
          None)"
proof -
  let ?a1 = "(home alice True)\<lparr>status := Processing, processingStartedAt := Some 1000\<rparr>"
  have d: "db1 alice True oid1 = Some (home alice True)" by (simp add: db1_def)
  have p: "isPublic (home alice True)" by (simp add: home_eq)
  have k: "keyed (db1 alice True)" by (simp add: keyed_def db1_def aid_home)
  have pb: "protect (Resolved bob) = Inr bob" by (simp add: protect_def bob_def)
  have n: "not_owner (optionalAuth (Resolved bob)) (home alice True)"
    by (simp add: not_owner_def optionalAuth_def bob_def alice_def home_eq)
  have q: "isPremium alice" and o: "user (home alice True) = uid alice"
    and st: "status (home alice True) = Pending"
    by (simp_all add: alice_def home_eq)
  have vh: "valid (home alice True)" by (rule valid_home) (simp add: alice_def)
  have ps: "preSave ((home alice True)\<lparr>status := Processing, processingStartedAt := Some 1000\<rparr>)
              = ?a1"
    by (simp add: home_eq preSave_def calcArea_def truthy_def)
  have s: "start_analysis (db1 alice True) (Resolved alice) oid1 1000 True
       = (Accept 200 ''Analysis processing started'' ?a1, [oid1 \<mapsto> ?a1], Some ?a1)"
    using start_success[of "Resolved alice" alice oid1 "db1 alice True" "home alice True" 1000,
        OF protect_alice q isMongoId_oid1 d aid_home o st vh] ps
    by (simp add: db1_def)
  note tb = requests_in_a_row[of "db1 alice True" oid1 "home alice True" "Resolved bob" 3
      1000 True 1001 True, OF d aid_home isMongoId_oid1 p k]
  note ta = requests_in_a_row[of "db1 alice True" oid1 "home alice True" "Resolved alice" 3
      1000 True 1001 True, OF d aid_home isMongoId_oid1 p k]
  have l: "map_option likes (((\<lambda>D. snd (like_analysis D (Resolved bob) oid1 True)) ^^ 3)
        (db1 alice True) oid1) = Some 3"
    and sh: "map_option shares (((\<lambda>D. snd (share_analysis D (Resolved bob) oid1 True)) ^^ 3)
        (db1 alice True) oid1) = Some 3"
    using tb pb by (simp_all add: home_eq)
  have v: "map_option views (((\<lambda>D. snd (get_by_id D (Resolved bob) oid1 True)) ^^ 3)
        (db1 alice True) oid1) = Some 3"
    using tb n by (simp add: home_eq)
  have c: "start_analysis [oid1 \<mapsto> ?a1] (Resolved alice) oid1 1001 True
       = (Reject 400 ''Analysis is already being processed or completed'', [oid1 \<mapsto> ?a1],
          None)"
    using ta s by blast
  show ?thesis using d aid_home[of alice True] isMongoId_oid1 p k pb n l sh v s c by blast
qed

text \<open>
  C7 as the specification states it fails. Two likes whose queries are both answered
  before either saves are both accepted, and the counter, 0 before, is 1 afterwards.
  Two starts of the owner in the same order of events are both accepted, and each of
  them hands over a callback.
\<close>

theorem overlapping_requests:
  "likes (the (db1 alice True oid1)) = 0
   \<and> fst liked_first = Accept 200 ''Analysis liked successfully'' 1
   \<and> fst liked_second = Accept 200 ''Analysis liked successfully'' 1
   \<and> likes (the (snd liked_second oid1)) = 1
   \<and> fst started_first
       = Accept 200 ''Analysis processing started''
           ((home alice False)\<lparr>status := Processing, processingStartedAt := Some 1000\<rparr>)
   \<and> fst started_second
       = Accept 200 ''Analysis processing started''
           ((home alice False)\<lparr>status := Processing, processingStartedAt := Some 1001\<rparr>)
   \<and> snd (snd started_first) \<noteq> None \<and> snd (snd started_second) \<noteq> None"
  by (simp add: liked_first_eq liked_second_eq started_first_eq started_second_eq db1_def
      home_eq)

lemma callback_first_eq:
  "snd (snd callback_first)
     = [oid1 \<mapsto> (home alice False)\<lparr>vastuAnalysis := mockResults 0 0, status := Completed,
                   processingStartedAt := Some 1000, completedAt := Some 6000,
                   processingTime := Some 5\<rparr>]"
  by (simp add: callback_first_def started_first_eq started_second_eq processing_callback_def
      updateStatus_def set_status_def save_def Let_def home_eq valid_def valid_room_def
      valid_vastu_def mockResults_def preSave_def calcArea_def truthy_def round_seconds_def
      alice_def)

lemma callback_second_eq:
  "snd (snd callback_second)
     = [oid1 \<mapsto> (home alice False)\<lparr>vastuAnalysis := mockResults 0 0, status := Failed,
                   processingStartedAt := Some 1001, completedAt := Some 6001,
                   processingTime := Some 5\<rparr>]"
  by (simp add: callback_second_def callback_first_eq started_second_eq
      processing_callback_def updateStatus_def set_status_def save_def Let_def home_eq
      valid_def valid_room_def valid_vastu_def mockResults_def preSave_def calcArea_def
      truthy_def round_seconds_def alice_def)

text \<open>
  C1 as the specification states it fails. \<open>alice\<close> sends two starts of her pending
  analysis, and both queries are answered before either start saves. The first start
  stores the status processing; the second start, working on the pending document it
  has read, is accepted as well, on an analysis that is stored as processing, and it
  leaves a second callback. The first callback stores the status completed. The
  second callback, whose first save is refused, then stores the status failed: the
  stored status moves from completed to failed, which is none of the three edges.
\<close>

theorem overlapping_starts_leave_the_edges:
  "status (the (db1 alice False oid1)) = Pending
   \<and> status (the (fst (snd started_first) oid1)) = Processing
   \<and> fst started_second
       = Accept 200 ''Analysis processing started''
           ((home alice False)\<lparr>status := Processing, processingStartedAt := Some 1001\<rparr>)
   \<and> snd (snd started_second) \<noteq> None
   \<and> status (the (snd (snd callback_first) oid1)) = Completed
   \<and> status (the (snd (snd callback_second) oid1)) = Failed
   \<and> \<not> edge Completed Failed"
  by (simp add: started_first_eq started_second_eq callback_first_eq callback_second_eq
      db1_def home_eq edge_def)

section \<open>The upload of a batch of files\<close>

lemma upload_each_result:
  "upload_each fs B acc = (ok, up, B1) \<Longrightarrow>
     (ok \<longleftrightarrow> (\<forall>f \<in> set fs. snd f \<noteq> None))
     \<and> map filename up = map filename acc @ uploaded_ids fs
     \<and> set B1 = set B \<union> set (uploaded_ids fs)"
proof (induction fs B acc rule: upload_each.induct)
  case (1 B acc)
  then show ?case by (simp add: uploaded_ids_def)
next
  case (2 f rest B acc)
  then show ?case by (simp add: uploaded_ids_def)
next
  case (3 f r rest B acc)
  from 3 show ?case by (auto simp: uploaded_ids_def)
qed

lemma cleanup_result:
  "cleanup destroyOk up B = (B', req, lg) \<Longrightarrow>
     req = map filename up
     \<and> set B' = set B - {p \<in> set (map filename up). destroyOk p}"
proof (induction up arbitrary: B B' req lg)
  case Nil
  then show ?case by simp
next
  case (Cons f fs)
  show ?case
  proof (cases "destroyOk (filename f)")
    case True
    obtain B2 req2 lg2 where r: "cleanup destroyOk fs (removeAll (filename f) B) = (B2, req2, lg2)"
      by (metis prod_cases3)
    from Cons.prems True r have e: "B' = B2" "req = filename f # req2" by simp_all
    from Cons.IH[OF r] e True show ?thesis by auto
  next
    case False
    obtain B2 req2 lg2 where r: "cleanup destroyOk fs B = (B2, req2, lg2)"
      by (metis prod_cases3)
    from Cons.prems False r have e: "B' = B2" "req = filename f # req2" by simp_all
    from Cons.IH[OF r] e False show ?thesis by auto
  qed
qed

lemma upload_failure:
  assumes "protect c = Inr u" "\<not> limited" "validateFileUpload b" "fs \<noteq> []"
    and "(\<exists>f \<in> set fs. snd f = None) \<or> \<not> dbOk"
  shows "\<exists>e. answer (upload_files D B c limited fs b today newId dbOk destroyOk) = Thrown e"
proof -
  obtain ok up B1 where ue: "upload_each fs B [] = (ok, up, B1)" by (metis prod_cases3)
  obtain B2 req lg where cl: "cleanup destroyOk up B1 = (B2, req, lg)" by (metis prod_cases3)
  show ?thesis
  proof (cases ok)
    case False
    with assms(1-4) ue cl show ?thesis by (simp add: upload_files_def)
  next
    case True
    with upload_each_result[OF ue] assms(5) have "\<not> dbOk" by auto
    then have "\<exists>e x. insert_doc dbOk (uploaded_analysis newId (uid u) b today up) D
                  = (Some e, x, D)"
      by (cases "valid (uploaded_analysis newId (uid u) b today up)")
         (simp_all add: insert_doc_def Let_def)
    then obtain e x where
      "insert_doc dbOk (uploaded_analysis newId (uid u) b today up) D = (Some e, x, D)"
      by blast
    with assms(1-4) ue cl True show ?thesis by (simp add: upload_files_def)
  qed
qed

lemma upload_aborted:
  assumes "protect c = Inr u" "\<not> limited" "validateFileUpload b" "fs \<noteq> []"
    and "answer (upload_files D B c limited fs b today newId dbOk destroyOk) = Thrown e"
  shows "analyses (upload_files D B c limited fs b today newId dbOk destroyOk) = D"
    and "destroy_requests (upload_files D B c limited fs b today newId dbOk destroyOk)
           = uploaded_ids fs"
    and "set (blobs (upload_files D B c limited fs b today newId dbOk destroyOk))
           = (set B \<union> set (uploaded_ids fs)) - {p \<in> set (uploaded_ids fs). destroyOk p}"
proof -
  let ?res = "upload_files D B c limited fs b today newId dbOk destroyOk"
  obtain ok up B1 where ue: "upload_each fs B [] = (ok, up, B1)" by (metis prod_cases3)
  obtain B2 req lg where cl: "cleanup destroyOk up B1 = (B2, req, lg)" by (metis prod_cases3)
  obtain e1 x D1 where
    ins: "insert_doc dbOk (uploaded_analysis newId (uid u) b today up) D = (e1, x, D1)"
    by (metis prod_cases3)
  from upload_each_result[OF ue] have up: "map filename up = uploaded_ids fs"
    "set B1 = set B \<union> set (uploaded_ids fs)" by simp_all
  from cleanup_result[OF cl] up have c: "req = uploaded_ids fs"
    "set B2 = (set B \<union> set (uploaded_ids fs)) - {p \<in> set (uploaded_ids fs). destroyOk p}"
    by simp_all
  have "analyses ?res = D \<and> destroy_requests ?res = req \<and> blobs ?res = B2"
  proof (cases ok)
    case False
    with assms(1-4) ue cl show ?thesis by (simp add: upload_files_def)
  next
    case True
    show ?thesis
    proof (cases e1)
      case None
      with assms True ue ins show ?thesis by (simp add: upload_files_def)
    next
      case (Some ex)
      with insert_cases[OF ins] have "D1 = D" by auto
      with assms(1-4) True ue ins cl Some show ?thesis by (simp add: upload_files_def)
    qed
  qed
  with c show "analyses ?res = D" and "destroy_requests ?res = uploaded_ids fs"
    and "set (blobs ?res)
           = (set B \<union> set (uploaded_ids fs)) - {p \<in> set (uploaded_ids fs). destroyOk p}"
    by simp_all
qed

text \<open>
  C8. Let an authenticated caller within the rate limit send a batch of at least one
  file with a valid title and description. When the Blob Store fails on one of the
  files, or the database refuses the new analysis, the handler throws. Whenever it
  throws, no analysis has been created, the deletion of every file uploaded before
  the failure has been requested, in the order of the uploads, and the Blob Store
  holds none of these files whose deletion it carried out.
\<close>

theorem failed_batch_is_cleaned_up:
  assumes "protect c = Inr u" "\<not> limited" "validateFileUpload b" "fs \<noteq> []"
  shows "((\<exists>f \<in> set fs. snd f = None) \<or> \<not> dbOk \<longrightarrow>
            (\<exists>e. answer (upload_files D B c limited fs b today newId dbOk destroyOk) = Thrown e))
       \<and> (\<forall>e. answer (upload_files D B c limited fs b today newId dbOk destroyOk) = Thrown e \<longrightarrow>
            analyses (upload_files D B c limited fs b today newId dbOk destroyOk) = D
            \<and> destroy_requests (upload_files D B c limited fs b today newId dbOk destroyOk)
                = uploaded_ids fs
            \<and> (\<forall>p \<in> set (uploaded_ids fs). destroyOk p \<longrightarrow>
                  p \<notin> set (blobs (upload_files D B c limited fs b today newId dbOk destroyOk)))
            \<and> set (blobs (upload_files D B c limited fs b today newId dbOk destroyOk))
                \<subseteq> set B \<union> set (uploaded_ids fs))"
proof (intro conjI allI impI ballI)
  assume "(\<exists>f \<in> set fs. snd f = None) \<or> \<not> dbOk"
  with assms show "\<exists>e. answer (upload_files D B c limited fs b today newId dbOk destroyOk) = Thrown e"
    by (rule upload_failure)
next
  fix e assume t: "answer (upload_files D B c limited fs b today newId dbOk destroyOk) = Thrown e"
  note r = upload_aborted[OF assms t]
  show "analyses (upload_files D B c limited fs b today newId dbOk destroyOk) = D" by (rule r(1))
  show "destroy_requests (upload_files D B c limited fs b today newId dbOk destroyOk)
          = uploaded_ids fs" by (rule r(2))
  show "set (blobs (upload_files D B c limited fs b today newId dbOk destroyOk))
          \<subseteq> set B \<union> set (uploaded_ids fs)" using r(3) by blast
  fix p assume "p \<in> set (uploaded_ids fs)" "destroyOk p"
  then show "p \<notin> set (blobs (upload_files D B c limited fs b today newId dbOk destroyOk))"
    using r(3) by blast
qed

theorem failed_batch_is_cleaned_up_witness:
  "protect (Resolved alice) = Inr alice
   \<and> validateFileUpload \<lparr>f_title = Some ''Plans'', f_description = None\<rparr>
   \<and> answer (upload_files Map.empty [] (Resolved alice) False
        [(\<lparr>originalname = ''a.png'', u_mimetype = ''image/png''\<rparr>,
          Some \<lparr>public_id = ''p1'', secure_url = ''https://cdn/p1'', bytes = 10\<rparr>),
         (\<lparr>originalname = ''b.png'', u_mimetype = ''image/png''\<rparr>, None)]
        \<lparr>f_title = Some ''Plans'', f_description = None\<rparr> ''1/1/2025'' oid1 True (\<lambda>p. True))
       = Thrown UploadFailed
   \<and> analyses (upload_files Map.empty [] (Resolved alice) False
        [(\<lparr>originalname = ''a.png'', u_mimetype = ''image/png''\<rparr>,
          Some \<lparr>public_id = ''p1'', secure_url = ''https://cdn/p1'', bytes = 10\<rparr>),
         (\<lparr>originalname = ''b.png'', u_mimetype = ''image/png''\<rparr>, None)]
        \<lparr>f_title = Some ''Plans'', f_description = None\<rparr> ''1/1/2025'' oid1 True (\<lambda>p. True))
       = Map.empty
   \<and> destroy_requests (upload_files Map.empty [] (Resolved alice) False
        [(\<lparr>originalname = ''a.png'', u_mimetype = ''image/png''\<rparr>,
          Some \<lparr>public_id = ''p1'', secure_url = ''https://cdn/p1'', bytes = 10\<rparr>),
         (\<lparr>originalname = ''b.png'', u_mimetype = ''image/png''\<rparr>, None)]
        \<lparr>f_title = Some ''Plans'', f_description = None\<rparr> ''1/1/2025'' oid1 True (\<lambda>p. True))
       = [''p1'']
   \<and> ''p1'' \<notin> set (blobs (upload_files Map.empty [] (Resolved alice) False
        [(\<lparr>originalname = ''a.png'', u_mimetype = ''image/png''\<rparr>,
          Some \<lparr>public_id = ''p1'', secure_url = ''https://cdn/p1'', bytes = 10\<rparr>),
         (\<lparr>originalname = ''b.png'', u_mimetype = ''image/png''\<rparr>, None)]
        \<lparr>f_title = Some ''Plans'', f_description = None\<rparr> ''1/1/2025'' oid1 True (\<lambda>p. True)))"
proof -
  let ?b = "\<lparr>f_title = Some ''Plans'', f_description = None\<rparr>"
  let ?fs = "[(\<lparr>originalname = ''a.png'', u_mimetype = ''image/png''\<rparr>,
          Some \<lparr>public_id = ''p1'', secure_url = ''https://cdn/p1'', bytes = 10\<rparr>),
         (\<lparr>originalname = ''b.png'', u_mimetype = ''image/png''\<rparr>, None)]"
  let ?res = "upload_files Map.empty [] (Resolved alice) False ?fs ?b ''1/1/2025'' oid1 True
                (\<lambda>p. True)"
  have v: "validateFileUpload ?b"
    by (simp add: validateFileUpload_def trim_def is_space_def)
  have f: "\<exists>f \<in> set ?fs. snd f = None" by simp
  have ids: "uploaded_ids ?fs = [''p1'']" by (simp add: uploaded_ids_def)
  have a: "answer ?res = Thrown UploadFailed"
    using v by (simp add: upload_files_def protect_alice)
  note t = failed_batch_is_cleaned_up[of "Resolved alice" alice False ?b ?fs True Map.empty "[]"
      "''1/1/2025''" oid1 "\<lambda>p. True", OF protect_alice _ v]
  from t a ids f have "analyses ?res = Map.empty \<and> destroy_requests ?res = [''p1'']
      \<and> ''p1'' \<notin> set (blobs ?res)"
    by simp
  with protect_alice v a show ?thesis by simp
qed

section \<open>Registration\<close>

text \<open>
  C9. A registration that is within the rate limit, passes the validation and finds
  no account with the same email or phone, and whose user is created and saved,
  succeeds whether the verification mail is sent or not: the answer is the same 201,
  the user is stored with the verification token, and when the mail fails nothing is
  sent and the failure is on the console only.
\<close>

theorem registration_survives_mail_failure:
  assumes "\<not> limited" "validated" "existingUser = None" "created = Inr u0"
  shows "reg_answer (register U limited validated b existingUser created h now True emailOk)
           = Accept 201 ''Registration successful! Please check your email to verify your account.''
               (u0\<lparr>emailVerificationToken := Some h,
                    emailVerificationExpire := Some (now + 86400000)\<rparr>)
       \<and> reg_users (register U limited validated b existingUser created h now True emailOk)
           (u_id u0)
           = Some (u0\<lparr>emailVerificationToken := Some h,
                       emailVerificationExpire := Some (now + 86400000)\<rparr>)
       \<and> (\<not> emailOk \<longrightarrow>
            outbox (register U limited validated b existingUser created h now True emailOk) = []
            \<and> ''Email sending failed:''
                \<in> set (reg_console
                         (register U limited validated b existingUser created h now True emailOk)))"
  using assms by (simp add: register_def sendEmail_def Let_def)

theorem registration_survives_mail_failure_witness:
  "reg_answer (register Map.empty False True
      \<lparr>r_firstName = ''Asha'', r_lastName = ''Rao'', r_email = ''asha@example.org'',
       r_phone = None, r_password = ''Secret#123''\<rparr> None
      (Inr \<lparr>u_id = oid1, firstName = ''Asha'', lastName = ''Rao'',
            email = ''asha@example.org'', phone = None, isEmailVerified = False,
            emailVerificationToken = None, emailVerificationExpire = None\<rparr>)
      ''abc'' 0 True False)
    = Accept 201 ''Registration successful! Please check your email to verify your account.''
        \<lparr>u_id = oid1, firstName = ''Asha'', lastName = ''Rao'', email = ''asha@example.org'',
         phone = None, isEmailVerified = False, emailVerificationToken = Some ''abc'',
         emailVerificationExpire = Some 86400000\<rparr>
   \<and> reg_users (register Map.empty False True
      \<lparr>r_firstName = ''Asha'', r_lastName = ''Rao'', r_email = ''asha@example.org'',
       r_phone = None, r_password = ''Secret#123''\<rparr> None
      (Inr \<lparr>u_id = oid1, firstName = ''Asha'', lastName = ''Rao'',
            email = ''asha@example.org'', phone = None, isEmailVerified = False,
            emailVerificationToken = None, emailVerificationExpire = None\<rparr>)
      ''abc'' 0 True False) oid1
    = Some \<lparr>u_id = oid1, firstName = ''Asha'', lastName = ''Rao'', email = ''asha@example.org'',
         phone = None, isEmailVerified = False, emailVerificationToken = Some ''abc'',
         emailVerificationExpire = Some 86400000\<rparr>
   \<and> outbox (register Map.empty False True
      \<lparr>r_firstName = ''Asha'', r_lastName = ''Rao'', r_email = ''asha@example.org'',
       r_phone = None, r_password = ''Secret#123''\<rparr> None
      (Inr \<lparr>u_id = oid1, firstName = ''Asha'', lastName = ''Rao'',
            email = ''asha@example.org'', phone = None, isEmailVerified = False,
            emailVerificationToken = None, emailVerificationExpire = None\<rparr>)
      ''abc'' 0 True False) = []"
  using registration_survives_mail_failure[of False True None
      "Inr \<lparr>u_id = oid1, firstName = ''Asha'', lastName = ''Rao'',
            email = ''asha@example.org'', phone = None, isEmailVerified = False,
            emailVerificationToken = None, emailVerificationExpire = None\<rparr>"
      "\<lparr>u_id = oid1, firstName = ''Asha'', lastName = ''Rao'',
            email = ''asha@example.org'', phone = None, isEmailVerified = False,
            emailVerificationToken = None, emailVerificationExpire = None\<rparr>"
      Map.empty
      "\<lparr>r_firstName = ''Asha'', r_lastName = ''Rao'', r_email = ''asha@example.org'',
       r_phone = None, r_password = ''Secret#123''\<rparr>" "''abc''" 0 False]
  by simp

section \<open>Deleting a rule\<close>

lemma isActive_deactivate [simp]: "\<not> isActive (deactivate r)"
  by (simp add: deactivate_def)

lemma rid_deactivate [simp]: "rid (deactivate r) = rid r"
  by (simp add: deactivate_def)

lemma valid_deactivate [simp]: "valid_rule (deactivate r) = valid_rule r"
  by (simp add: deactivate_def valid_rule_def)

lemma find_rid: "find (\<lambda>x. rid x = i) R = Some r \<Longrightarrow> rid r = i"
  by (induction R) (auto split: if_splits)

lemma find_replaced:
  "find (\<lambda>x. rid x = i) R = Some r \<Longrightarrow> rid r' = i
   \<Longrightarrow> find (\<lambda>x. rid x = i) (map (\<lambda>x. if rid x = rid r' then r' else x) R) = Some r'"
  by (induction R) (auto split: if_splits)

lemma replaced_at_id:
  "x \<in> set (map (\<lambda>x. if rid x = rid r' then r' else x) R) \<Longrightarrow> rid x = rid r' \<Longrightarrow> x = r'"
  by auto

lemma set_sort_rules [simp]: "set (sort_rules rs) = set rs"
  by (simp add: sort_rules_def)

lemma set_sort_by_priority [simp]: "set (sort_by_priority rs) = set rs"
  by (simp add: sort_by_priority_def)

lemma getByCategory_active: "x \<in> set (getByCategory R cat opts) \<Longrightarrow> x \<in> set R \<and> isActive x"
  by (simp add: getByCategory_def)

lemma getCriticalRules_active: "x \<in> set (getCriticalRules R) \<Longrightarrow> x \<in> set R \<and> isActive x"
  by (simp add: getCriticalRules_def)

lemma searchRules_active: "x \<in> set (searchRules rx R t fl) \<Longrightarrow> x \<in> set R \<and> isActive x"
  by (simp add: searchRules_def)

lemma list_rules_active:
  "list_rules R page limit q impact = Accept code msg (rs, p, n_all) \<Longrightarrow> x \<in> set rs
   \<Longrightarrow> x \<in> set R \<and> isActive x"
  by (auto simp: list_rules_def Let_def split: if_splits dest!: in_set_takeD in_set_dropD)

lemma search_rules_active:
  "search_rules rx R q fl = Accept code msg rs \<Longrightarrow> x \<in> set rs \<Longrightarrow> x \<in> set R \<and> isActive x"
  by (auto simp: search_rules_def split: if_splits dest: searchRules_active)

lemma rules_by_category_active:
  "rules_by_category R cat q = Accept code msg rs \<Longrightarrow> x \<in> set rs \<Longrightarrow> x \<in> set R \<and> isActive x"
  by (auto simp: rules_by_category_def dest: getByCategory_active)

lemma critical_rules_active:
  "critical_rules R = Accept code msg rs \<Longrightarrow> x \<in> set rs \<Longrightarrow> x \<in> set R \<and> isActive x"
  by (auto simp: critical_rules_def dest: getCriticalRules_active)

lemma delete_rule_result:
  assumes "protect c = Inr u" "role u = ''admin''" "isMongoId i"
    "find (\<lambda>x. rid x = i) R = Some r" "valid_rule r"
  shows "delete_rule R c i True
           = (Accept 200 ''Vastu rule deactivated successfully'' (),
              map (\<lambda>x. if rid x = i then deactivate r else x) R)"
  using assms find_rid[OF assms(4)]
  by (simp add: delete_rule_def authorize_def findRuleById_def save_rule_def)

lemma inactive_not_found:
  assumes "isMongoId i" "find (\<lambda>x. rid x = i) R = Some r" "\<not> isActive r"
  shows "get_rule R i = Reject 404 ''Vastu rule not found''"
    and "rule_remedies R i budget difficulty = Reject 404 ''Vastu rule not found''"
  using assms by (simp_all add: get_rule_def rule_remedies_def findRuleById_def)

text \<open>
  C10. When an administrator deletes a valid rule and the save goes through, the
  rule stays in the collection, at its place and with its id, marked inactive (and
  with its version raised when it was active). From then on get-by-id and the
  remedies of this rule answer 404, and every rule that the list, the search, the
  category query and the critical query return is an active rule of the collection,
  so none of them has the id of the deleted rule.
\<close>

theorem deleted_rule_is_deactivated:
  assumes "protect c = Inr u" "role u = ''admin''" "isMongoId i"
    "find (\<lambda>x. rid x = i) R = Some r" "valid_rule r"
  shows "fst (delete_rule R c i True) = Accept 200 ''Vastu rule deactivated successfully'' ()
       \<and> map rid (snd (delete_rule R c i True)) = map rid R
       \<and> find (\<lambda>x. rid x = i) (snd (delete_rule R c i True)) = Some (deactivate r)
       \<and> deactivate r = r\<lparr>isActive := False,
                           r_version := (if isActive r then r_version r + 1 else r_version r)\<rparr>
       \<and> get_rule (snd (delete_rule R c i True)) i = Reject 404 ''Vastu rule not found''
       \<and> rule_remedies (snd (delete_rule R c i True)) i budget difficulty
           = Reject 404 ''Vastu rule not found''
       \<and> (\<forall>x code msg rs p n_all.
            (list_rules (snd (delete_rule R c i True)) page limit q impact
               = Accept code msg (rs, p, n_all)
             \<or> search_rules rx (snd (delete_rule R c i True)) needle q = Accept code msg rs
             \<or> rules_by_category (snd (delete_rule R c i True)) cat q = Accept code msg rs
             \<or> critical_rules (snd (delete_rule R c i True)) = Accept code msg rs)
            \<and> x \<in> set rs
            \<longrightarrow> isActive x \<and> rid x \<noteq> i)"
proof -
  let ?R' = "map (\<lambda>x. if rid x = i then deactivate r else x) R"
  have ri: "rid r = i" by (rule find_rid[OF assms(4)])
  have d: "delete_rule R c i True = (Accept 200 ''Vastu rule deactivated successfully'' (), ?R')"
    by (rule delete_rule_result[OF assms])
  have ids: "map rid ?R' = map rid R" using ri by (induction R) auto
  have f: "find (\<lambda>x. rid x = i) ?R' = Some (deactivate r)"
    using find_replaced[OF assms(4), of "deactivate r"] ri by simp
  have de: "deactivate r
      = r\<lparr>isActive := False, r_version := (if isActive r then r_version r + 1 else r_version r)\<rparr>"
    by (simp add: deactivate_def)
  have at: "\<And>x. x \<in> set ?R' \<Longrightarrow> isActive x \<Longrightarrow> rid x \<noteq> i"
    using ri by auto
  have q: "\<And>x code msg rs p n_all.
            (list_rules ?R' page limit q impact = Accept code msg (rs, p, n_all)
             \<or> search_rules rx ?R' needle q = Accept code msg rs
             \<or> rules_by_category ?R' cat q = Accept code msg rs
             \<or> critical_rules ?R' = Accept code msg rs)
            \<and> x \<in> set rs
            \<Longrightarrow> isActive x \<and> rid x \<noteq> i"
  proof -
    fix x code msg rs p n_all
    assume h: "(list_rules ?R' page limit q impact = Accept code msg (rs, p, n_all)
             \<or> search_rules rx ?R' needle q = Accept code msg rs
             \<or> rules_by_category ?R' cat q = Accept code msg rs
             \<or> critical_rules ?R' = Accept code msg rs)
            \<and> x \<in> set rs"
    then have "x \<in> set ?R' \<and> isActive x"
      using list_rules_active[of ?R' page limit q impact code msg rs p n_all x]
        search_rules_active[of rx ?R' needle q code msg rs x]
        rules_by_category_active[of ?R' cat q code msg rs x]
        critical_rules_active[of ?R' code msg rs x]
      by blast
    with at[of x] show "isActive x \<and> rid x \<noteq> i" by blast
  qed
  show ?thesis
    unfolding d fst_conv snd_conv
    using ids f de inactive_not_found[OF assms(3) f isActive_deactivate] q
    by (intro conjI allI impI) blast+
qed

theorem deleted_rule_is_deactivated_witness:
  "protect (Resolved carol) = Inr carol \<and> role carol = ''admin'' \<and> isMongoId oid1
   \<and> find (\<lambda>x. rid x = oid1) [rule1, rule2] = Some rule1 \<and> valid_rule rule1
   \<and> delete_rule [rule1, rule2] (Resolved carol) oid1 True
       = (Accept 200 ''Vastu rule deactivated successfully'' (),
          [rule1\<lparr>isActive := False, r_version := 2\<rparr>, rule2])
   \<and> get_rule [rule1\<lparr>isActive := False, r_version := 2\<rparr>, rule2] oid1
       = Reject 404 ''Vastu rule not found''
   \<and> rule_remedies [rule1\<lparr>isActive := False, r_version := 2\<rparr>, rule2] oid1 None None
       = Reject 404 ''Vastu rule not found''
   \<and> critical_rules [rule1\<lparr>isActive := False, r_version := 2\<rparr>, rule2] = Accept 200 [] [rule2]
   \<and> list_rules [rule1\<lparr>isActive := False, r_version := 2\<rparr>, rule2] None None no_filters None
       = Accept 200 [] ([rule2], 1, 1)
   \<and> isActive rule2 \<and> rid rule2 \<noteq> oid1"
proof -
  let ?R' = "[rule1\<lparr>isActive := False, r_version := 2\<rparr>, rule2]"
  have p: "protect (Resolved carol) = Inr carol" by (simp add: protect_def carol_def)
  have r: "role carol = ''admin''" by (simp add: carol_def)
  have f: "find (\<lambda>x. rid x = oid1) [rule1, rule2] = Some rule1"
    by (simp add: rule1_def oid1_def)
  have v: "valid_rule rule1" by (simp add: valid_rule_def rule1_def)
  have ids: "rid rule1 = oid1" "rid rule2 \<noteq> oid1"
    by (simp_all add: rule1_def rule2_def oid1_def)
  have de: "deactivate rule1 = rule1\<lparr>isActive := False, r_version := 2\<rparr>"
    by (simp add: deactivate_def rule1_def)
  have d: "delete_rule [rule1, rule2] (Resolved carol) oid1 True
       = (Accept 200 ''Vastu rule deactivated successfully'' (), ?R')"
    using delete_rule_result[of "Resolved carol" carol oid1 "[rule1, rule2]" rule1,
        OF p r isMongoId_oid1 f v] ids de
    by simp
  have r2: "isActive rule2" "r_importance rule2 = ''critical''"
    by (simp_all add: rule2_def)
  have c: "critical_rules ?R' = Accept 200 [] [rule2]"
    using r2 by (simp add: critical_rules_def getCriticalRules_def sort_by_priority_def)
  have l: "list_rules ?R' None None no_filters None = Accept 200 [] ([rule2], 1, 1)"
    using r2
    by (simp add: list_rules_def validatePagination_def or_default_def Let_def no_filters_def
        equals_def in_or_any_def given_def sort_rules_def)
  note t = deleted_rule_is_deactivated[of "Resolved carol" carol oid1 "[rule1, rule2]" rule1
      None None None None no_filters None "\<lambda>t s. True" None "[]", OF p r isMongoId_oid1 f v]
  from t d have g: "get_rule ?R' oid1 = Reject 404 ''Vastu rule not found''"
    "rule_remedies ?R' oid1 None None = Reject 404 ''Vastu rule not found''"
    by simp_all
  have m: "rule2 \<in> set [rule2]" by simp
  from t[unfolded d snd_conv fst_conv] c m have "isActive rule2 \<and> rid rule2 \<noteq> oid1"
    by blast
  with p r isMongoId_oid1 f v d g c l show ?thesis by simp
qed

end
